theory Spec2Isabelle
  imports
    Main
    "HOL-Library.Word"
    "HOL-Library.Char_ord"
    "HOL-Library.List_Lexorder"
    "HOL-Library.Product_Lexorder"
begin

section \<open>Python values used by the two scripts\<close>

text \<open>
  A Python \<open>str\<close> is modelled as a \<open>string\<close> whose characters are read as the code
  points 0..255; \<open>bytes\<close> are lists of 8-bit words. Paths are \<open>pathlib\<close> objects on a
  POSIX system: the list of their segments (\<open>Path.parts\<close> without the root).
\<close>

type_synonym byte = "8 word"
type_synonym path = "string list"

datatype py_error = ZeroDivisionError | ValueError

definition py_ord :: "char \<Rightarrow> nat" where
  "py_ord c = of_char c"

text \<open>\<open>str.isspace\<close> for one character, on the code points 0..255.\<close>

definition isspace :: "char \<Rightarrow> bool" where
  "isspace c = (py_ord c \<in> {9, 10, 11, 12, 13, 28, 29, 30, 31, 32, 133, 160})"

text \<open>\<open>str.lower\<close>, on the code points 0..255.\<close>

definition lower_char :: "char \<Rightarrow> char" where
  "lower_char c =
     (let n = py_ord c in
      if (65 \<le> n \<and> n \<le> 90) \<or> (192 \<le> n \<and> n \<le> 222 \<and> n \<noteq> 215)
      then char_of (n + 32) else c)"

definition str_lower :: "string \<Rightarrow> string" where
  "str_lower s = map lower_char s"

definition lstrip :: "string \<Rightarrow> string" where
  "lstrip s = dropWhile isspace s"

definition rstrip :: "string \<Rightarrow> string" where
  "rstrip s = rev (dropWhile isspace (rev s))"

definition str_strip :: "string \<Rightarrow> string" where
  "str_strip s = rstrip (lstrip s)"

fun startswith :: "string \<Rightarrow> string \<Rightarrow> bool" where
  "startswith s [] = True"
| "startswith [] (p # ps) = False"
| "startswith (c # cs) (p # ps) = (c = p \<and> startswith cs ps)"

definition endswith :: "string \<Rightarrow> string \<Rightarrow> bool" where
  "endswith s p = startswith (rev s) (rev p)"

text \<open>\<open>s.rstrip('/')\<close>: every trailing slash is removed.\<close>

definition rstrip_slash :: "string \<Rightarrow> string" where
  "rstrip_slash s = rev (dropWhile (\<lambda>c. c = CHR ''/'') (rev s))"

text \<open>
  \<open>PurePath.suffix\<close> of a final path component (Python up to 3.13):
  \<open>i = name.rfind('.')\<close>, and the suffix is \<open>name[i:]\<close> when \<open>0 < i < len(name) - 1\<close>,
  the empty string otherwise. \<open>rfind_dot\<close> scans from the right.
\<close>

fun rfind_dot :: "string \<Rightarrow> nat option" where
  "rfind_dot [] = None"
| "rfind_dot (c # cs) =
     (case rfind_dot cs of
        Some i \<Rightarrow> Some (Suc i)
      | None \<Rightarrow> if c = CHR ''.'' then Some 0 else None)"

definition path_suffix :: "string \<Rightarrow> string" where
  "path_suffix name =
     (case rfind_dot name of
        None \<Rightarrow> []
      | Some i \<Rightarrow> if 0 < i \<and> Suc i < length name then drop i name else [])"

section \<open>codebase\_to\_markdown.py: the binary detector\<close>

definition BINARY_EXTENSIONS :: "string list" where
  "BINARY_EXTENSIONS =
    [''.jpg'', ''.jpeg'', ''.png'', ''.gif'', ''.bmp'', ''.svg'', ''.ico'', ''.webp'',
     ''.tiff'', ''.tif'',
     ''.mp4'', ''.avi'', ''.mov'', ''.wmv'', ''.flv'', ''.webm'', ''.mkv'', ''.m4v'',
     ''.mp3'', ''.wav'', ''.flac'', ''.aac'', ''.ogg'', ''.wma'', ''.m4a'',
     ''.zip'', ''.rar'', ''.7z'', ''.tar'', ''.gz'', ''.bz2'', ''.xz'',
     ''.pdf'', ''.doc'', ''.docx'', ''.xls'', ''.xlsx'', ''.ppt'', ''.pptx'',
     ''.exe'', ''.dll'', ''.so'', ''.dylib'', ''.bin'', ''.app'', ''.deb'', ''.rpm'',
     ''.msi'',
     ''.ttf'', ''.otf'', ''.woff'', ''.woff2'', ''.eot'',
     ''.db'', ''.sqlite'', ''.sqlite3'', ''.mdb'',
     ''.iso'', ''.img'', ''.dmg'', ''.toast'', ''.vcd'']"

text \<open>
  A file as the dump tool meets it: its name, what \<open>open(p, 'rb').read()\<close> gives
  (\<open>None\<close> when the open or the read raises \<open>OSError\<close>), and what the later
  \<open>open(p, 'r', encoding='utf-8', errors='ignore').read()\<close> gives (\<open>None\<close> when
  it raises).
\<close>

record src_file =
  fname :: string
  rb_read :: "byte list option"
  utf8_read :: "string option"

text \<open>
  \<open>bytearray({7,8,9,10,12,13,27} | set(range(0x20, 0x100)) - {0x7f})\<close>: in Python the
  set difference binds tighter than the union.
\<close>

definition text_chars :: "byte set" where
  "text_chars = {7, 8, 9, 10, 12, 13, 27} \<union> (of_nat ` {0x20 ..< 0x100} - {0x7f})"

text \<open>\<open>chunk.translate(None, text_chars)\<close> deletes the bytes of \<open>text_chars\<close>.\<close>

definition translate_delete :: "byte list \<Rightarrow> byte set \<Rightarrow> byte list" where
  "translate_delete chunk del = filter (\<lambda>b. b \<notin> del) chunk"

text \<open>
  \<open>k / n > 0.30\<close> on two lengths. Python raises \<open>ZeroDivisionError\<close> for \<open>n = 0\<close>.
  Otherwise the quotient is the double nearest to \<open>k / n\<close> and \<open>0.30\<close> is the double
  nearest to \<open>3 / 10\<close>; for \<open>n \<le> 1024\<close> a quotient other than \<open>3 / 10\<close> is at least
  \<open>1 / 10240\<close> away from it, far more than a rounding error, so the comparison of the
  doubles is the comparison \<open>3 * n < 10 * k\<close> of the integers.
\<close>

definition ratio_gt_030 :: "nat \<Rightarrow> nat \<Rightarrow> py_error + bool" where
  "ratio_gt_030 k n = (if n = 0 then Inl ZeroDivisionError else Inr (3 * n < 10 * k))"

definition is_binary_file :: "src_file \<Rightarrow> py_error + bool" where
  "is_binary_file file_path =
     (if str_lower (path_suffix (fname file_path)) \<in> set BINARY_EXTENSIONS then Inr True
      else
        case rb_read file_path of
          None \<Rightarrow> Inr True
        | Some content \<Rightarrow>
            let chunk = take 1024 content in
            if 0 \<in> set chunk then Inr True
            else if chunk = [] then Inr False
            else
              case ratio_gt_030 (length (translate_delete chunk text_chars)) (length chunk) of
                Inl e \<Rightarrow> Inl e
              | Inr b \<Rightarrow> Inr b)"

text \<open>
  The allowed set in the words of the specification: tab, newline, carriage return,
  form feed, escape, and the bytes 0x20 to 0xFF without the delete character.
\<close>

definition spec_allowed :: "byte \<Rightarrow> bool" where
  "spec_allowed b = (b \<in> {9, 10, 13, 12, 27} \<or> (0x20 \<le> b \<and> b \<noteq> 0x7f))"

definition spec_binary_sample :: "byte list \<Rightarrow> bool" where
  "spec_binary_sample chunk =
     (0 \<in> set chunk \<or> 3 * length chunk < 10 * length (filter (\<lambda>b. \<not> spec_allowed b) chunk))"

section \<open>fnmatch of the Python standard library\<close>

text \<open>
  \<open>fnmatch.fnmatch(name, pat)\<close> on a POSIX system (\<open>os.path.normcase\<close> is the identity):
  \<open>fnmatch.translate\<close> turns the pattern into a regular expression, which must match the
  whole name. The regular expression is kept as a list of items: \<open>*\<close> (any string, the
  slash included), \<open>?\<close> (any character), a literal character, or a character set with
  its negation flag and its ranges (a single character \<open>c\<close> is the range from \<open>c\<close> to
  \<open>c\<close>).
\<close>

datatype glob = Star | AnyChar | Lit char | CharSet bool "(char \<times> char) list"

text \<open>
  Inside \<open>[...]\<close>, \<open>translate\<close> cuts the text at the hyphens that stand for a range: the
  first one is looked for from the second character on (the third after a leading
  \<open>!\<close>), each later one from the third character of its chunk on. \<open>split_ranges k acc s\<close>
  scans \<open>s\<close>; \<open>k\<close> characters are still to pass before a hyphen counts, \<open>acc\<close> is the
  chunk read so far, reversed.
\<close>

fun split_ranges :: "nat \<Rightarrow> string \<Rightarrow> string \<Rightarrow> string list" where
  "split_ranges k acc [] = [rev acc]"
| "split_ranges k acc (c # cs) =
     (if k = 0 \<and> c = CHR ''-'' then rev acc # split_ranges 2 [] cs
      else split_ranges (k - 1) (c # acc) cs)"

text \<open>An empty last chunk means a trailing hyphen: \<open>chunks[-1] += '-'\<close>.\<close>

definition fix_last_chunk :: "string list \<Rightarrow> string list" where
  "fix_last_chunk chunks =
     (if 2 \<le> length chunks \<and> last chunks = []
      then butlast (butlast chunks) @ [last (butlast chunks) @ ''-'']
      else chunks)"

text \<open>
  Empty ranges are removed from the right:
  \<open>if chunks[k-1][-1] > chunks[k][0]: chunks[k-1] = chunks[k-1][:-1] + chunks[k][1:]\<close>.
\<close>

fun drop_empty_ranges :: "string list \<Rightarrow> string list" where
  "drop_empty_ranges [] = []"
| "drop_empty_ranges [c] = [c]"
| "drop_empty_ranges (c1 # c2 # cs) =
     (case drop_empty_ranges (c2 # cs) of
        [] \<Rightarrow> [c1]
      | d # ds \<Rightarrow>
          if c1 \<noteq> [] \<and> d \<noteq> [] \<and> last c1 > hd d then (butlast c1 @ tl d) # ds
          else c1 # d # ds)"

text \<open>
  The chunks are joined by range hyphens; every other character stands for itself
  (\<open>translate\<close> escapes backslashes, hyphens inside a chunk, \<open>&\<close>, \<open>~\<close>, \<open>|\<close> and a
  leading \<open>^\<close> or \<open>[\<close>).
\<close>

fun chunk_ranges :: "string list \<Rightarrow> (char \<times> char) list" where
  "chunk_ranges [] = []"
| "chunk_ranges [c] = map (\<lambda>x. (x, x)) c"
| "chunk_ranges (c1 # c2 # cs) =
     (if c1 = [] \<or> c2 = [] then map (\<lambda>x. (x, x)) c1 @ chunk_ranges (c2 # cs)
      else map (\<lambda>x. (x, x)) (butlast c1) @ [(last c1, hd c2)] @ chunk_ranges (tl c2 # cs))"

text \<open>
  The set for the text \<open>stuff\<close> between the brackets. A text that is empty after the
  removal of empty ranges never matches, the text \<open>!\<close> matches every character: both
  are the set with no range, plain or negated.
\<close>

definition bracket_set :: "string \<Rightarrow> glob" where
  "bracket_set stuff =
     (let chunks = drop_empty_ranges
            (fix_last_chunk (split_ranges (if startswith stuff ''!'' then 2 else 1) [] stuff))
      in case chunks of
           [] \<Rightarrow> CharSet False []
         | c # cs \<Rightarrow>
             if startswith c ''!'' then CharSet True (chunk_ranges (tl c # cs))
             else CharSet False (chunk_ranges (c # cs)))"

text \<open>
  The text after an opening bracket: \<open>translate\<close> skips a leading \<open>!\<close> and then a
  leading \<open>]\<close>, and looks for the next \<open>]\<close>. Without one the bracket is a literal
  character (\<open>None\<close>); otherwise the set and the pattern after the closing bracket.
\<close>

definition parse_bracket :: "string \<Rightarrow> (glob \<times> string) option" where
  "parse_bracket s =
     (let r1 = (if startswith s ''!'' then tl s else s);
          r2 = (if startswith r1 '']'' then tl r1 else r1);
          r3 = dropWhile (\<lambda>c. c \<noteq> CHR '']'') r2
      in if r3 = [] then None
         else Some (bracket_set (take (length s - length r3) s), tl r3))"

lemma parse_bracket_shorter:
  "parse_bracket s = Some (g, r) \<Longrightarrow> length r < Suc (length s)"
proof -
  assume "parse_bracket s = Some (g, r)"
  then obtain r2 where r: "r = tl (dropWhile (\<lambda>c. c \<noteq> CHR '']'') r2)"
    and r2: "length r2 \<le> length s"
    by (auto simp: parse_bracket_def Let_def split: if_splits)
  have "length r \<le> length r2"
    unfolding r using length_dropWhile_le [of "\<lambda>c. c \<noteq> CHR '']''" r2] by simp
  with r2 show ?thesis by simp
qed

function translate :: "string \<Rightarrow> glob list" where
  "translate [] = []"
| "translate (c # cs) =
     (if c = CHR ''*'' then
        (case translate cs of Star # res \<Rightarrow> Star # res | res \<Rightarrow> Star # res)
      else if c = CHR ''?'' then AnyChar # translate cs
      else if c = CHR ''['' then
        (case parse_bracket cs of
           None \<Rightarrow> Lit CHR ''['' # translate cs
         | Some (g, rest) \<Rightarrow> g # translate rest)
      else Lit c # translate cs)"
  by pat_completeness auto
termination
  by (relation "measure length") (auto dest: parse_bracket_shorter)

definition in_ranges :: "(char \<times> char) list \<Rightarrow> char \<Rightarrow> bool" where
  "in_ranges rs c = list_ex (\<lambda>(lo, hi). lo \<le> c \<and> c \<le> hi) rs"

fun glob_char :: "glob \<Rightarrow> char \<Rightarrow> bool" where
  "glob_char Star c = True"
| "glob_char AnyChar c = True"
| "glob_char (Lit x) c = (c = x)"
| "glob_char (CharSet neg rs) c = (neg \<noteq> in_ranges rs c)"

fun regex_match :: "glob list \<Rightarrow> string \<Rightarrow> bool" where
  "regex_match [] s = (s = [])"
| "regex_match (Star # gs) [] = regex_match gs []"
| "regex_match (Star # gs) (c # cs) = (regex_match gs (c # cs) \<or> regex_match (Star # gs) cs)"
| "regex_match (g # gs) [] = False"
| "regex_match (g # gs) (c # cs) = (glob_char g c \<and> regex_match gs cs)"

definition fnmatch :: "string \<Rightarrow> string \<Rightarrow> bool" where
  "fnmatch name pat = regex_match (translate pat) name"

section \<open>pathlib paths\<close>

text \<open>\<open>p.relative_to(other)\<close> raises \<open>ValueError\<close> unless \<open>other\<close> is a prefix of \<open>p\<close>.\<close>

definition relative_to :: "path \<Rightarrow> path \<Rightarrow> py_error + path" where
  "relative_to p other =
     (if take (length other) p = other then Inr (drop (length other) p) else Inl ValueError)"

fun join_slash :: "string list \<Rightarrow> string" where
  "join_slash [] = []"
| "join_slash [s] = s"
| "join_slash (s # t # ts) = s @ ''/'' @ join_slash (t # ts)"

text \<open>\<open>as_posix\<close> of a relative path; the empty path is written \<open>.\<close>\<close>

definition as_posix :: "path \<Rightarrow> string" where
  "as_posix p = (if p = [] then ''.'' else join_slash p)"

fun split_slash :: "string \<Rightarrow> string \<Rightarrow> string list" where
  "split_slash acc [] = [rev acc]"
| "split_slash acc (c # cs) =
     (if c = CHR ''/'' then rev acc # split_slash [] cs else split_slash (c # acc) cs)"

text \<open>
  \<open>Path(s).parts\<close> for the text of a relative path: the segments between slashes,
  without the empty ones and the \<open>.\<close> ones.
\<close>

definition Path :: "string \<Rightarrow> path" where
  "Path s = filter (\<lambda>seg. seg \<noteq> [] \<and> seg \<noteq> ''.'') (split_slash [] s)"

text \<open>\<open>s.replace('\\', '/')\<close>\<close>

definition replace_backslash :: "string \<Rightarrow> string" where
  "replace_backslash s = map (\<lambda>c. if c = CHR 0x5C then CHR ''/'' else c) s"

section \<open>codebase\_to\_markdown.py: ignore files\<close>

text \<open>
  What the script finds at the place of an ignore file: nothing, a file that cannot be
  opened, or a file with its text as Python's text mode delivers it (decoded, every
  line end translated to a newline).
\<close>

datatype ignore_file = Missing | Unreadable | Readable string

text \<open>
  The lines a text file yields when it is iterated: each ends with its newline, but
  for the last one when the text does not end with a newline.
\<close>

fun file_lines :: "string \<Rightarrow> string \<Rightarrow> string list" where
  "file_lines acc [] = (if acc = [] then [] else [rev acc])"
| "file_lines acc (c # cs) =
     (if c = CHR 0x0A then rev (c # acc) # file_lines [] cs else file_lines (c # acc) cs)"

fun parse_lines :: "string list \<Rightarrow> string list \<Rightarrow> string list" where
  "parse_lines patterns [] = patterns"
| "parse_lines patterns (line # rest) =
     (let line' = str_strip line in
      if line' \<noteq> [] \<and> \<not> startswith line' ''#'' then parse_lines (patterns @ [line']) rest
      else parse_lines patterns rest)"

text \<open>
  \<open>parse_gitignore\<close>: no patterns when the path is not a file or cannot be opened
  (the exception is caught and a warning printed).
\<close>

fun parse_gitignore :: "ignore_file \<Rightarrow> string list" where
  "parse_gitignore Missing = []"
| "parse_gitignore Unreadable = []"
| "parse_gitignore (Readable content) = parse_lines [] (file_lines [] content)"

text \<open>
  \<open>get_gitignore_patterns\<close>: \<open>at d\<close> is the file \<open>.gitignore\<close> of the directory \<open>d\<close>.
  The loop climbs from the resolved start directory to the root (the empty path); the
  dictionary is kept as an association list in insertion order.
\<close>

function climb :: "(path \<Rightarrow> ignore_file) \<Rightarrow> path \<Rightarrow> (path \<times> string list) list
    \<Rightarrow> (path \<times> string list) list" where
  "climb at current_dir all_patterns =
     (let all_patterns' =
        (if at current_dir \<noteq> Missing \<and> map_of all_patterns current_dir = None then
           (let patterns = parse_gitignore (at current_dir) in
            if patterns \<noteq> [] then all_patterns @ [(current_dir, patterns)] else all_patterns)
         else all_patterns)
      in if current_dir = [] then all_patterns'
         else climb at (butlast current_dir) all_patterns')"
  by pat_completeness auto
termination
  by (relation "measure (\<lambda>(at, current_dir, all_patterns). length current_dir)") auto

definition get_gitignore_patterns :: "(path \<Rightarrow> ignore_file) \<Rightarrow> path \<Rightarrow> (path \<times> string list) list" where
  "get_gitignore_patterns at directory = climb at directory []"

text \<open>
  The part of the process and of the file system that \<open>matches_gitignore\<close> reads: the
  current working directory (\<open>Path('.').resolve()\<close>) and which absolute paths are
  directories (\<open>Path(p).is_dir()\<close> resolves a relative \<open>p\<close> against the working
  directory).
\<close>

record process_env =
  cwd :: path
  is_dir :: "path \<Rightarrow> bool"

text \<open>The test of one pattern against the path relative to the ignore file's directory.\<close>

definition pattern_hit :: "process_env \<Rightarrow> string \<Rightarrow> string \<Rightarrow> bool" where
  "pattern_hit env relative_to_gitignore_dir pattern =
     (let is_dir_pattern = endswith pattern ''/'';
          match_pattern = rstrip_slash pattern;
          parts = Path relative_to_gitignore_dir
      in if fnmatch relative_to_gitignore_dir match_pattern
            \<or> fnmatch relative_to_gitignore_dir (match_pattern @ ''/*'')
            \<or> list_ex (\<lambda>part. fnmatch part match_pattern) parts
         then (if is_dir_pattern
               then is_dir env (cwd env @ parts) \<or> match_pattern \<in> set parts
               else True)
         else False)"

fun any_pattern :: "process_env \<Rightarrow> string \<Rightarrow> string list \<Rightarrow> bool" where
  "any_pattern env rel [] = False"
| "any_pattern env rel (pattern # patterns) =
     (if pattern_hit env rel pattern then True else any_pattern env rel patterns)"

text \<open>
  \<open>matches_gitignore\<close>: a scope whose directory is not below the working directory, or
  whose path from the working directory is not a prefix of the candidate, raises
  \<open>ValueError\<close> and is passed over.
\<close>

fun matches_gitignore :: "process_env \<Rightarrow> string \<Rightarrow> (path \<times> string list) list \<Rightarrow> bool" where
  "matches_gitignore env relative_path_posix [] = False"
| "matches_gitignore env relative_path_posix ((gitignore_dir, patterns) # rest) =
     (case relative_to gitignore_dir (cwd env) of
        Inl e \<Rightarrow> matches_gitignore env relative_path_posix rest
      | Inr scope \<Rightarrow>
          (case relative_to (Path relative_path_posix) scope of
             Inl e \<Rightarrow> matches_gitignore env relative_path_posix rest
           | Inr rel \<Rightarrow>
               if any_pattern env (as_posix rel) patterns then True
               else matches_gitignore env relative_path_posix rest))"

section \<open>codebase\_to\_markdown.py: the traversal\<close>

definition LANGUAGE_MAP :: "(string \<times> string) list" where
  "LANGUAGE_MAP =
    [(''.py'', ''python''), (''.js'', ''javascript''), (''.ts'', ''typescript''),
     (''.tsx'', ''typescript''), (''.java'', ''java''), (''.cs'', ''csharp''),
     (''.fs'', ''fsharp''), (''.vb'', ''vbnet''), (''.go'', ''go''), (''.rs'', ''rust''),
     (''.c'', ''c''), (''.cpp'', ''cpp''), (''.h'', ''cpp''), (''.html'', ''html''),
     (''.css'', ''css''), (''.scss'', ''scss''), (''.less'', ''less''), (''.xml'', ''xml''),
     (''.json'', ''json''), (''.yaml'', ''yaml''), (''.yml'', ''yaml''), (''.sh'', ''bash''),
     (''.bash'', ''bash''), (''.zsh'', ''bash''), (''.ps1'', ''powershell''),
     (''.psm1'', ''powershell''), (''.psd1'', ''powershell''), (''.rb'', ''ruby''),
     (''.php'', ''php''), (''.sql'', ''sql''), (''.md'', ''markdown''), (''.txt'', []),
     (''.gitignore'', ''ignore''), (''.gitattributes'', ''ignore''),
     (''Dockerfile'', ''dockerfile'')]"

definition get_language_hint :: "string \<Rightarrow> string" where
  "get_language_hint name =
     (case map_of LANGUAGE_MAP (str_lower (path_suffix name)) of
        Some hint \<Rightarrow> hint
      | None \<Rightarrow> (case map_of LANGUAGE_MAP name of Some hint \<Rightarrow> hint | None \<Rightarrow> []))"

text \<open>
  The parsed command line: the resolved source directory and output file, the set of
  directory names of \<open>--exclude\<close>, the patterns of \<open>--exclude-patterns\<close> and \<open>--force\<close>
  (\<open>--verbose\<close> only prints).
\<close>

record config =
  source_dir :: path
  output_file :: path
  exclude_dirs :: "string set"
  exclude_patterns :: "string list"
  force :: bool

text \<open>
  The variables of \<open>main\<close> that the walk updates: the six counters and what has been
  written to the output file. \<open>visited\<close> is not a variable of the script: it records,
  in order, the directories (relative to the source directory) that \<open>os.walk\<close> yields.
\<close>

record run_state =
  processed_count :: nat
  skipped_excluded_dir :: nat
  skipped_gitignore :: nat
  skipped_read_error :: nat
  skipped_output_file :: nat
  skipped_pattern_exclude :: nat
  md_file :: "string list"
  visited :: "path list"

text \<open>What \<open>os.walk\<close> finds below the source directory, in the order of enumeration.\<close>

datatype entry = FileEntry src_file | DirEntry string "entry list"

fun dir_names :: "entry list \<Rightarrow> string list" where
  "dir_names [] = []"
| "dir_names (FileEntry f # es) = dir_names es"
| "dir_names (DirEntry d sub # es) = d # dir_names es"

fun file_entries :: "entry list \<Rightarrow> src_file list" where
  "file_entries [] = []"
| "file_entries (FileEntry f # es) = f # file_entries es"
| "file_entries (DirEntry d sub # es) = file_entries es"

definition std_excluded :: "config \<Rightarrow> string \<Rightarrow> bool" where
  "std_excluded cfg d = (d \<in> exclude_dirs cfg \<or> startswith d ''.'')"

text \<open>The directory-anchor normalisation: a trailing \<open>/*\<close>, or else a trailing \<open>/\<close>, is cut.\<close>

definition pattern_to_test_against_dir :: "string \<Rightarrow> string" where
  "pattern_to_test_against_dir current_pattern_original =
     (if endswith current_pattern_original ''/*''
      then take (length current_pattern_original - 2) current_pattern_original
      else if endswith current_pattern_original ''/''
      then take (length current_pattern_original - 1) current_pattern_original
      else current_pattern_original)"

definition dir_pattern_match :: "string \<Rightarrow> string \<Rightarrow> bool" where
  "dir_pattern_match dir_rel_path_posix current_pattern_original =
     (let pat = pattern_to_test_against_dir current_pattern_original;
          current_match_result = fnmatch dir_rel_path_posix pat
      in if \<not> current_match_result \<and> startswith pat ''**/''
            \<and> CHR ''/'' \<notin> set dir_rel_path_posix
         then fnmatch dir_rel_path_posix (drop 3 pat)
         else current_match_result)"

fun matched_by_exclude_pattern :: "string \<Rightarrow> string list \<Rightarrow> bool" where
  "matched_by_exclude_pattern dir_rel_path_posix [] = False"
| "matched_by_exclude_pattern dir_rel_path_posix (pat # pats) =
     (if dir_pattern_match dir_rel_path_posix pat then True
      else matched_by_exclude_pattern dir_rel_path_posix pats)"

text \<open>
  The loop over the directories that are left after the standard exclusion: the state
  and the two sets \<open>dirs_to_remove_gitignore\<close> and \<open>dirs_to_remove_pattern\<close>.
\<close>

fun scan_dirs :: "config \<Rightarrow> process_env \<Rightarrow> (path \<times> string list) list \<Rightarrow> path \<Rightarrow> string list
    \<Rightarrow> run_state \<times> string set \<times> string set \<Rightarrow> run_state \<times> string set \<times> string set" where
  "scan_dirs cfg env gmap relative_dir_path [] acc = acc"
| "scan_dirs cfg env gmap relative_dir_path (d # ds) (st, rm_gitignore, rm_pattern) =
     (let dir_rel_path_posix = replace_backslash (as_posix (relative_dir_path @ [d])) in
      if matched_by_exclude_pattern dir_rel_path_posix (exclude_patterns cfg) then
        scan_dirs cfg env gmap relative_dir_path ds
          (st\<lparr>skipped_pattern_exclude := skipped_pattern_exclude st + 1\<rparr>,
           rm_gitignore, insert d rm_pattern)
      else if matches_gitignore env dir_rel_path_posix gmap then
        scan_dirs cfg env gmap relative_dir_path ds
          (st\<lparr>skipped_gitignore := skipped_gitignore st + 1\<rparr>,
           insert d rm_gitignore, rm_pattern)
      else scan_dirs cfg env gmap relative_dir_path ds (st, rm_gitignore, rm_pattern))"

text \<open>
  The directory exclusion of one \<open>os.walk\<close> step: the names \<open>os.walk\<close> descends into
  afterwards, and the state. The standard excludes are counted from their set.
\<close>

definition filter_dirs :: "config \<Rightarrow> process_env \<Rightarrow> (path \<times> string list) list \<Rightarrow> path
    \<Rightarrow> string list \<Rightarrow> run_state \<Rightarrow> string list \<times> run_state" where
  "filter_dirs cfg env gmap relative_dir_path dirs st =
     (let dirs_to_remove_std_exclude = set (filter (std_excluded cfg) dirs);
          dirs1 = filter (\<lambda>d. d \<notin> dirs_to_remove_std_exclude) dirs;
          (st1, rm_gitignore, rm_pattern) =
             scan_dirs cfg env gmap relative_dir_path dirs1 (st, {}, {});
          st2 = st1\<lparr>skipped_excluded_dir :=
                   skipped_excluded_dir st1 + card dirs_to_remove_std_exclude\<rparr>
      in (filter (\<lambda>d. d \<notin> rm_gitignore \<and> d \<notin> rm_pattern) dirs1, st2))"

fun file_matches_exclude_pattern :: "string \<Rightarrow> string list \<Rightarrow> bool" where
  "file_matches_exclude_pattern relative_path_posix [] = False"
| "file_matches_exclude_pattern relative_path_posix (current_pattern # pats) =
     (if fnmatch relative_path_posix current_pattern then True
      else file_matches_exclude_pattern relative_path_posix pats)"

text \<open>
  The body of the loop over the files of a directory. An exception that \<open>is_binary_file\<close>
  does not catch leaves the loops; it is returned with the state reached. The writes to
  the output file are taken to succeed.
\<close>

definition process_file :: "config \<Rightarrow> process_env \<Rightarrow> (path \<times> string list) list \<Rightarrow> path
    \<Rightarrow> src_file \<Rightarrow> run_state \<Rightarrow> (py_error \<times> run_state) + run_state" where
  "process_file cfg env gmap relative_dir_path file st =
     (let file_path = source_dir cfg @ relative_dir_path @ [fname file];
          relative_path = relative_dir_path @ [fname file];
          relative_path_posix = replace_backslash (as_posix relative_path)
      in if file_path = output_file cfg then
           Inr (st\<lparr>skipped_output_file := skipped_output_file st + 1\<rparr>)
         else
           case is_binary_file file of
             Inl e \<Rightarrow> Inl (e, st)
           | Inr True \<Rightarrow> Inr (st\<lparr>skipped_read_error := skipped_read_error st + 1\<rparr>)
           | Inr False \<Rightarrow>
               if list_ex (\<lambda>part. part \<in> exclude_dirs cfg) relative_path then
                 Inr (st\<lparr>skipped_excluded_dir := skipped_excluded_dir st + 1\<rparr>)
               else if file_matches_exclude_pattern relative_path_posix (exclude_patterns cfg) then
                 Inr (st\<lparr>skipped_pattern_exclude := skipped_pattern_exclude st + 1\<rparr>)
               else if matches_gitignore env relative_path_posix gmap then
                 Inr (st\<lparr>skipped_gitignore := skipped_gitignore st + 1\<rparr>)
               else
                 case utf8_read file of
                   None \<Rightarrow> Inr (st\<lparr>skipped_read_error := skipped_read_error st + 1\<rparr>)
                 | Some content \<Rightarrow>
                     Inr (st\<lparr>md_file := md_file st @
                               [''## '' @ relative_path_posix @ [CHR 0x0A, CHR 0x0A],
                                [CHR 0x60, CHR 0x60, CHR 0x60] @ get_language_hint (fname file)
                                  @ [CHR 0x0A],
                                content,
                                [CHR 0x0A, CHR 0x60, CHR 0x60, CHR 0x60, CHR 0x0A, CHR 0x0A]],
                             processed_count := processed_count st + 1\<rparr>))"

fun process_files :: "config \<Rightarrow> process_env \<Rightarrow> (path \<times> string list) list \<Rightarrow> path
    \<Rightarrow> src_file list \<Rightarrow> run_state \<Rightarrow> (py_error \<times> run_state) + run_state" where
  "process_files cfg env gmap relative_dir_path [] st = Inr st"
| "process_files cfg env gmap relative_dir_path (file # files) st =
     (case process_file cfg env gmap relative_dir_path file st of
        Inl err \<Rightarrow> Inl err
      | Inr st' \<Rightarrow> process_files cfg env gmap relative_dir_path files st')"

text \<open>
  \<open>os.walk(source_dir, topdown=True)\<close> with the loop body of \<open>main\<close>: \<open>walk_dir\<close> is one
  step (directory exclusion, then the files) followed by the walks of the directories
  that were kept; \<open>walk_subdirs\<close> goes through the entries of the directory and descends
  into those whose name was kept.
\<close>

fun walk_dir :: "config \<Rightarrow> process_env \<Rightarrow> (path \<times> string list) list \<Rightarrow> path
    \<Rightarrow> entry list \<Rightarrow> run_state \<Rightarrow> (py_error \<times> run_state) + run_state"
  and walk_subdirs :: "config \<Rightarrow> process_env \<Rightarrow> (path \<times> string list) list \<Rightarrow> path
    \<Rightarrow> string list \<Rightarrow> entry list \<Rightarrow> run_state \<Rightarrow> (py_error \<times> run_state) + run_state" where
  "walk_dir cfg env gmap relative_dir_path entries st =
     (case filter_dirs cfg env gmap relative_dir_path (dir_names entries)
             (st\<lparr>visited := visited st @ [relative_dir_path]\<rparr>) of
        (dirs, st1) \<Rightarrow>
          (case process_files cfg env gmap relative_dir_path (file_entries entries) st1 of
             Inl err \<Rightarrow> Inl err
           | Inr st2 \<Rightarrow> walk_subdirs cfg env gmap relative_dir_path dirs entries st2))"
| "walk_subdirs cfg env gmap relative_dir_path dirs [] st = Inr st"
| "walk_subdirs cfg env gmap relative_dir_path dirs (FileEntry f # es) st =
     walk_subdirs cfg env gmap relative_dir_path dirs es st"
| "walk_subdirs cfg env gmap relative_dir_path dirs (DirEntry d sub # es) st =
     (if d \<in> set dirs then
        (case walk_dir cfg env gmap (relative_dir_path @ [d]) sub st of
           Inl err \<Rightarrow> Inl err
         | Inr st' \<Rightarrow> walk_subdirs cfg env gmap relative_dir_path dirs es st')
      else walk_subdirs cfg env gmap relative_dir_path dirs es st)"

text \<open>
  What \<open>main\<close> reads of the world: whether the source is a directory, the content of
  the output file (\<open>None\<close> when there is none), the ignore file of every directory, the
  process, and the tree under the source directory as \<open>os.walk\<close> enumerates it.
\<close>

record world =
  source_is_dir :: bool
  output_content :: "string option"
  gitignore_at :: "path \<Rightarrow> ignore_file"
  proc :: process_env
  tree :: "entry list"

datatype outcome =
    SourceNotDirectory
  | OutputExists
  | ErrorWriting py_error run_state
  | Finished run_state

definition initial_state :: "config \<Rightarrow> process_env \<Rightarrow> run_state" where
  "initial_state cfg env =
     \<lparr>processed_count = 0, skipped_excluded_dir = 0, skipped_gitignore = 0,
      skipped_read_error = 0, skipped_output_file = 0, skipped_pattern_exclude = 0,
      md_file =
        [''# Code Dump: '' @ (if source_dir cfg = [] then [] else last (source_dir cfg))
           @ [CHR 0x0A, CHR 0x0A],
         ''*Generated on: '' @ (if cwd env = [] then [] else last (cwd env)) @ ''*''
           @ [CHR 0x0A, CHR 0x0A]],
      visited = []\<rparr>"

text \<open>
  \<open>main\<close>: the outcome and the content of the output file afterwards. The two checks
  return before anything is opened; after them the output file is opened for writing
  (taken to succeed) and holds what the run wrote.
\<close>

definition main :: "config \<Rightarrow> world \<Rightarrow> outcome \<times> string option" where
  "main cfg w =
     (if \<not> source_is_dir w then (SourceNotDirectory, output_content w)
      else if output_content w \<noteq> None \<and> \<not> force cfg then (OutputExists, output_content w)
      else
        let gitignore_map = get_gitignore_patterns (gitignore_at w) (source_dir cfg) in
        case walk_dir cfg (proc w) gitignore_map [] (tree w) (initial_state cfg (proc w)) of
          Inl (e, st) \<Rightarrow> (ErrorWriting e st, Some (concat (md_file st)))
        | Inr st \<Rightarrow> (Finished st, Some (concat (md_file st))))"

text \<open>The total that the summary of \<open>main\<close> prints as \<open>Total items skipped\<close>.\<close>

definition total_skipped :: "run_state \<Rightarrow> nat" where
  "total_skipped st =
     skipped_excluded_dir st + skipped_gitignore st + skipped_read_error st
     + skipped_output_file st + skipped_pattern_exclude st"

section \<open>tree\_gitignore.py\<close>

text \<open>
  \<open>str.splitlines\<close> on the code points 0..255: the line boundaries are the characters
  10 to 13, 28 to 30 and 133, and a carriage return followed by a newline is one
  boundary; the lines come without them, and a boundary at the very end opens no
  further line.
\<close>

definition is_linebreak :: "char \<Rightarrow> bool" where
  "is_linebreak c = (py_ord c \<in> {10, 11, 12, 13, 28, 29, 30, 133})"

fun splitlines :: "string \<Rightarrow> string \<Rightarrow> string list" where
  "splitlines acc [] = (if acc = [] then [] else [rev acc])"
| "splitlines acc [c] = (if is_linebreak c then [rev acc] else [rev (c # acc)])"
| "splitlines acc (c # d # cs) =
     (if c = CHR 0x0D \<and> d = CHR 0x0A then rev acc # splitlines [] cs
      else if is_linebreak c then rev acc # splitlines [] (d # cs)
      else splitlines (c # acc) (d # cs))"

text \<open>
  \<open>load_gitignore_patterns\<close>: no path gives no patterns; the \<open>open\<close> is not guarded, so
  a file that cannot be read raises.
\<close>

datatype io_error = OSError

fun load_gitignore_patterns :: "ignore_file \<Rightarrow> io_error + string list" where
  "load_gitignore_patterns Missing = Inr []"
| "load_gitignore_patterns Unreadable = Inl OSError"
| "load_gitignore_patterns (Readable content) =
     Inr (filter (\<lambda>line. line \<noteq> [] \<and> \<not> startswith (str_strip line) ''#'')
            (splitlines [] content))"

text \<open>
  A directory entry as \<open>build_tree\<close> sees it: a regular file, something that is neither
  a regular file nor a directory, a directory with its entries in the order of
  \<open>iterdir\<close>, or a directory whose listing raises \<open>PermissionError\<close>.
\<close>

datatype item =
    RegularFile string
  | OtherItem string
  | Directory string "item list"
  | LockedDirectory string

fun item_name :: "item \<Rightarrow> string" where
  "item_name (RegularFile n) = n"
| "item_name (OtherItem n) = n"
| "item_name (Directory n sub) = n"
| "item_name (LockedDirectory n) = n"

fun item_is_file :: "item \<Rightarrow> bool" where
  "item_is_file (RegularFile n) = True"
| "item_is_file (OtherItem n) = False"
| "item_is_file (Directory n sub) = False"
| "item_is_file (LockedDirectory n) = False"

fun item_is_dir :: "item \<Rightarrow> bool" where
  "item_is_dir (RegularFile n) = False"
| "item_is_dir (OtherItem n) = False"
| "item_is_dir (Directory n sub) = True"
| "item_is_dir (LockedDirectory n) = True"

text \<open>The sort key \<open>(x.is_file(), x.name.lower())\<close>; tuples and strings compare lexicographically.\<close>

definition sort_key_of :: "item \<Rightarrow> bool \<times> string" where
  "sort_key_of x = (item_is_file x, str_lower (item_name x))"

text \<open>
  The entries of one directory in the order in which \<open>build_tree\<close> goes through them:
  sorted (Python's sort is stable, as \<open>sort_key\<close> is), then without those that the
  ignore specification matches. \<open>match_file\<close> is \<open>spec.match_file\<close> of the \<open>pathspec\<close>
  library, \<open>relative_dir\<close> the directory relative to the root of the ignore file.
\<close>

definition filtered_items :: "(string \<Rightarrow> bool) \<Rightarrow> path \<Rightarrow> item list \<Rightarrow> item list" where
  "filtered_items match_file relative_dir items =
     filter (\<lambda>x. \<not> match_file (join_slash (relative_dir @ [item_name x])))
       (sort_key sort_key_of items)"

text \<open>
  The four connectors of the printed tree: the branch pointer, the pointer of the last
  entry, the vertical bar and the blank filler. A printed line is the list of connectors
  before the label (the prefix, then the pointer) and the label.
\<close>

datatype connector = Tee | Corner | Bar | Blank

type_synonym line = "connector list \<times> string"

definition pointers :: "nat \<Rightarrow> connector list" where
  "pointers n = replicate (n - 1) Tee @ [Corner]"

definition item_line :: "connector list \<Rightarrow> connector \<Rightarrow> item \<Rightarrow> line" where
  "item_line prefix pointer x =
     (prefix @ [pointer], item_name x @ (if item_is_dir x then ''/'' else []))"

lemma item_size_in_list: "x \<in> set xs \<Longrightarrow> size x < Suc (size_list size xs)"
  by (induction xs) auto

function build_tree :: "(string \<Rightarrow> bool) \<Rightarrow> path \<Rightarrow> item list \<Rightarrow> connector list \<Rightarrow> line list" where
  "build_tree match_file relative_dir items prefix =
     (let filtered = filtered_items match_file relative_dir items in
      concat (map (\<lambda>(pointer, x).
          item_line prefix pointer x #
          (case x of
             Directory n sub \<Rightarrow>
               build_tree match_file (relative_dir @ [n]) sub
                 (prefix @ [if pointer = Tee then Bar else Blank])
           | LockedDirectory n \<Rightarrow>
               [((prefix @ [if pointer = Tee then Bar else Blank]) @ [Corner],
                 ''[ACCESS DENIED] '' @ n @ ''/'')]
           | _ \<Rightarrow> []))
        (zip (pointers (length filtered)) filtered)))"
  by pat_completeness auto
termination
proof (relation "measure (\<lambda>(match_file, relative_dir, items, prefix). size_list size items)")
  show "wf (measure (\<lambda>(match_file, relative_dir, items, prefix). size_list size items))"
    by simp
next
  fix match_file :: "string \<Rightarrow> bool" and relative_dir :: path and items :: "item list"
    and prefix :: "connector list" and filtered z pointer x n sub
  assume "filtered = filtered_items match_file relative_dir items"
    and "z \<in> set (zip (pointers (length filtered)) filtered)"
    and "(pointer, x) = z" and "x = Directory n sub"
  then have "Directory n sub \<in> set items"
    by (auto simp: filtered_items_def dest!: set_zip_rightD)
  then have "size (Directory n sub) < Suc (size_list size items)"
    by (rule item_size_in_list)
  then show "((match_file, relative_dir @ [n], sub, prefix @ [if pointer = Tee then Bar else Blank]),
              (match_file, relative_dir, items, prefix))
             \<in> measure (\<lambda>(match_file, relative_dir, items, prefix). size_list size items)"
    by simp
qed

section \<open>Notions of the specification\<close>

text \<open>
  A blank line holds nothing but whitespace; a comment line is one whose first
  character that is not whitespace is \<open>#\<close>.
\<close>

definition blank_line :: "string \<Rightarrow> bool" where
  "blank_line l = list_all isspace l"

definition comment_line :: "string \<Rightarrow> bool" where
  "comment_line l = (case dropWhile isspace l of [] \<Rightarrow> False | c # cs \<Rightarrow> c = CHR ''#'')"

text \<open>
  The three tests on a subdirectory \<open>d\<close> of the directory \<open>relative_dir_path\<close>, as the
  directory loop of \<open>main\<close> makes them, and their disjunction.
\<close>

definition pattern_excluded :: "config \<Rightarrow> path \<Rightarrow> string \<Rightarrow> bool" where
  "pattern_excluded cfg relative_dir_path d =
     matched_by_exclude_pattern (replace_backslash (as_posix (relative_dir_path @ [d])))
       (exclude_patterns cfg)"

definition git_ignored :: "process_env \<Rightarrow> (path \<times> string list) list \<Rightarrow> path \<Rightarrow> string \<Rightarrow> bool" where
  "git_ignored env gmap relative_dir_path d =
     matches_gitignore env (replace_backslash (as_posix (relative_dir_path @ [d]))) gmap"

definition pruned :: "config \<Rightarrow> process_env \<Rightarrow> (path \<times> string list) list \<Rightarrow> path \<Rightarrow> string \<Rightarrow> bool" where
  "pruned cfg env gmap relative_dir_path d =
     (std_excluded cfg d \<or> pattern_excluded cfg relative_dir_path d
      \<or> git_ignored env gmap relative_dir_path d)"

text \<open>
  Two listings of the directory \<open>relative_dir_path\<close> that differ at most in what lies
  below pruned directories, at any depth.
\<close>

inductive same_outside_pruned :: "config \<Rightarrow> process_env \<Rightarrow> (path \<times> string list) list \<Rightarrow> path
    \<Rightarrow> entry list \<Rightarrow> entry list \<Rightarrow> bool" where
  same_nil: "same_outside_pruned cfg env gmap rel [] []"
| same_file: "same_outside_pruned cfg env gmap rel es es'
    \<Longrightarrow> same_outside_pruned cfg env gmap rel (FileEntry f # es) (FileEntry f # es')"
| same_pruned: "pruned cfg env gmap rel d \<Longrightarrow> same_outside_pruned cfg env gmap rel es es'
    \<Longrightarrow> same_outside_pruned cfg env gmap rel (DirEntry d sub # es) (DirEntry d sub' # es')"
| same_kept: "same_outside_pruned cfg env gmap (rel @ [d]) sub sub'
    \<Longrightarrow> same_outside_pruned cfg env gmap rel es es'
    \<Longrightarrow> same_outside_pruned cfg env gmap rel (DirEntry d sub # es) (DirEntry d sub' # es')"

text \<open>
  The skip counters of the directory exclusion and the visited directories only grow
  from one state to a later one.
\<close>

definition counters_le :: "run_state \<Rightarrow> run_state \<Rightarrow> bool" where
  "counters_le st st' =
     (skipped_excluded_dir st \<le> skipped_excluded_dir st'
      \<and> skipped_pattern_exclude st \<le> skipped_pattern_exclude st'
      \<and> skipped_gitignore st \<le> skipped_gitignore st'
      \<and> set (visited st) \<subseteq> set (visited st'))"

section \<open>Example inputs\<close>

text \<open>
  A run in the source directory \<open>/work/proj\<close>, whose ignore file holds the pattern
  \<open>logs/\<close>, with the exclude pattern \<open>**/build/*\<close> and the excluded name
  \<open>node_modules\<close>; a small tree, and the same tree with nothing below its pruned
  directories.
\<close>

definition example_cfg :: config where
  "example_cfg = \<lparr>source_dir = [''work'', ''proj''], output_file = [''work'', ''dump.md''],
     exclude_dirs = {''node_modules''}, exclude_patterns = [''**/build/*''], force = False\<rparr>"

definition example_env :: process_env where
  "example_env = \<lparr>cwd = [''work'', ''proj''], is_dir = (\<lambda>p. True)\<rparr>"

definition example_gmap :: "(path \<times> string list) list" where
  "example_gmap = [([''work'', ''proj''], [''logs/''])]"

definition text_file :: "string \<Rightarrow> src_file" where
  "text_file name = \<lparr>fname = name, rb_read = Some [0x61], utf8_read = Some ''a''\<rparr>"

definition example_tree :: "entry list" where
  "example_tree =
     [FileEntry (text_file ''a.py''),
      DirEntry ''.git'' [FileEntry (text_file ''config'')],
      DirEntry ''build'' [FileEntry (text_file ''out.txt'')],
      DirEntry ''logs'' [FileEntry (text_file ''x.log'')],
      DirEntry ''src'' [FileEntry (text_file ''c.py''),
                       DirEntry ''node_modules'' [FileEntry (text_file ''pkg.json'')]]]"

definition example_tree_emptied :: "entry list" where
  "example_tree_emptied =
     [FileEntry (text_file ''a.py''),
      DirEntry ''.git'' [],
      DirEntry ''build'' [],
      DirEntry ''logs'' [],
      DirEntry ''src'' [FileEntry (text_file ''c.py''), DirEntry ''node_modules'' []]]"

definition zero_state :: run_state where
  "zero_state = \<lparr>processed_count = 0, skipped_excluded_dir = 0, skipped_gitignore = 0,
     skipped_read_error = 0, skipped_output_file = 0, skipped_pattern_exclude = 0,
     md_file = [], visited = []\<rparr>"

section \<open>Properties of the binary detector\<close>

lemma byte_range_iff: "(b :: byte) \<in> of_nat ` {0x20 ..< 0x100} \<longleftrightarrow> 0x20 \<le> b"
proof
  assume "b \<in> of_nat ` {0x20 ..< 0x100}"
  then obtain n :: nat where n: "b = of_nat n" "32 \<le> n" "n < 256" by auto
  then have "unat b = n" by (simp add: unat_of_nat)
  with n show "0x20 \<le> b" by (simp add: word_le_nat_alt)
next
  assume "0x20 \<le> b"
  then have "32 \<le> unat b" by (simp add: word_le_nat_alt)
  moreover have "unat b < 256" using unsigned_less [of b, where 'a = nat] by simp
  moreover have "b = of_nat (unat b)" by simp
  ultimately show "b \<in> of_nat ` {0x20 ..< 0x100}" by (metis atLeastLessThan_iff imageI)
qed

lemma text_chars_iff:
  "b \<in> text_chars \<longleftrightarrow> b \<in> {7, 8, 9, 10, 12, 13, 27} \<or> (0x20 \<le> b \<and> b \<noteq> 0x7f)"
  unfolding text_chars_def using byte_range_iff [of b] by blast

lemma content_check_total:
  "(if 0 \<in> set chunk then Inr True
        else if chunk = [] then Inr False
        else case ratio_gt_030 (length (translate_delete chunk text_chars)) (length chunk) of
               Inl e \<Rightarrow> Inl e | Inr b \<Rightarrow> Inr b) \<noteq> (Inl err :: py_error + bool)"
  by (simp add: ratio_gt_030_def)

lemma is_binary_file_never_raises: "is_binary_file f \<noteq> Inl err"
proof (cases "rb_read f")
  case None
  then show ?thesis by (simp add: is_binary_file_def)
next
  case (Some content)
  then show ?thesis
    using content_check_total [of "take 1024 content" err]
    unfolding is_binary_file_def Let_def
    by (cases "str_lower (path_suffix (fname f)) \<in> set BINARY_EXTENSIONS") simp_all
qed

lemma txt_not_denied: "str_lower (path_suffix ''a.txt'') \<notin> set BINARY_EXTENSIONS"
  by code_simp

text \<open>
  C2, as amended. For a readable file whose extension is not in the denylist, the
  verdict depends on the first 1024 bytes only: the file is binary exactly when the
  sample holds a null byte or more than 30 percent of its bytes lie outside the allowed
  set, which consists of bell (7), backspace (8), tab, newline, form feed, carriage
  return, escape and the bytes 0x20 to 0xFF without 0x7F.
\<close>

theorem is_binary_file_content_rule:
  assumes "str_lower (path_suffix (fname f)) \<notin> set BINARY_EXTENSIONS"
    and "rb_read f = Some content"
  shows "is_binary_file f =
      Inr (0 \<in> set (take 1024 content) \<or>
           3 * length (take 1024 content)
             < 10 * length (filter (\<lambda>b. \<not> (b \<in> {7, 8, 9, 10, 12, 13, 27} \<or> (0x20 \<le> b \<and> b \<noteq> 0x7f)))
                            (take 1024 content)))"
proof -
  define chunk where "chunk = take 1024 content"
  have "is_binary_file f =
      (if 0 \<in> set chunk then Inr True
       else if chunk = [] then Inr False
       else case ratio_gt_030 (length (translate_delete chunk text_chars)) (length chunk) of
              Inl e \<Rightarrow> Inl e | Inr b \<Rightarrow> Inr b)"
    using assms by (simp add: is_binary_file_def Let_def chunk_def)
  also have "\<dots> = Inr (0 \<in> set chunk \<or>
           3 * length chunk
             < 10 * length (filter (\<lambda>b. \<not> (b \<in> {7, 8, 9, 10, 12, 13, 27} \<or> (0x20 \<le> b \<and> b \<noteq> 0x7f))) chunk))"
    by (cases "chunk = []") (simp_all add: ratio_gt_030_def translate_delete_def text_chars_iff)
  finally show ?thesis by (simp only: chunk_def)
qed

theorem is_binary_file_content_rule_witness:
  "is_binary_file \<lparr>fname = ''a.txt'', rb_read = Some [7, 8, 65, 0x80, 0x7f], utf8_read = None\<rparr> = Inr False
   \<and> is_binary_file \<lparr>fname = ''a.txt'', rb_read = Some [65, 1, 2], utf8_read = None\<rparr> = Inr True"
  using is_binary_file_content_rule [of "\<lparr>fname = ''a.txt'', rb_read = Some [7, 8, 65, 0x80, 0x7f], utf8_read = None\<rparr>" "[7, 8, 65, 0x80, 0x7f]"]
    is_binary_file_content_rule [of "\<lparr>fname = ''a.txt'', rb_read = Some [65, 1, 2], utf8_read = None\<rparr>" "[65, 1, 2]"]
    txt_not_denied
  by simp

text \<open>
  C2 as the specification words it fails: a readable file \<open>a.txt\<close> that holds the bytes
  7, 8 and 65 is not binary for the detector, while two of its three bytes lie outside
  the set that the specification lists.
\<close>

theorem spec_allowed_set_counterexample:
  "is_binary_file \<lparr>fname = ''a.txt'', rb_read = Some [7, 8, 65], utf8_read = None\<rparr> = Inr False
   \<and> spec_binary_sample (take 1024 [7, 8, 65])"
proof -
  have "is_binary_file \<lparr>fname = ''a.txt'', rb_read = Some [7, 8, 65], utf8_read = None\<rparr> = Inr False"
    using txt_not_denied
    by (simp add: is_binary_file_def Let_def ratio_gt_030_def translate_delete_def text_chars_iff)
  moreover have "spec_binary_sample (take 1024 [7, 8, 65])"
    by (simp add: spec_binary_sample_def spec_allowed_def)
  ultimately show ?thesis by simp
qed

text \<open>
  C10. A readable file whose extension is not in the denylist and whose sample is empty
  is not binary, and no file makes the detector raise \<open>ZeroDivisionError\<close>: the ratio
  is computed for a non-empty sample only.
\<close>

theorem is_binary_file_empty_sample:
  assumes "str_lower (path_suffix (fname f)) \<notin> set BINARY_EXTENSIONS"
    and "rb_read f = Some content"
    and "take 1024 content = []"
  shows "is_binary_file f = Inr False \<and> (\<forall>g. is_binary_file g \<noteq> Inl ZeroDivisionError)"
proof
  show "is_binary_file f = Inr False"
    using assms by (simp add: is_binary_file_def)
  show "\<forall>g. is_binary_file g \<noteq> Inl ZeroDivisionError"
    by (simp add: is_binary_file_never_raises)
qed

theorem is_binary_file_empty_sample_witness:
  "is_binary_file \<lparr>fname = ''a.txt'', rb_read = Some [], utf8_read = Some []\<rparr> = Inr False"
  using is_binary_file_empty_sample [of "\<lparr>fname = ''a.txt'', rb_read = Some [], utf8_read = Some []\<rparr>" "[]"]
    txt_not_denied
  by simp

section \<open>Properties of the Markdown dump\<close>

text \<open>
  C9. When the output file exists and \<open>--force\<close> is not given, \<open>main\<close> returns from one of
  its two configuration checks: the output file keeps its content, the outcome carries
  no counters, and the result does not depend on the tree or on any ignore file, none
  of which is read.
\<close>

theorem main_refuses_existing_output:
  assumes "output_content w = Some old" and "\<not> force cfg"
  shows "main cfg w = (if source_is_dir w then OutputExists else SourceNotDirectory, Some old)
    \<and> (\<forall>t g. main cfg (w\<lparr>tree := t, gitignore_at := g\<rparr>) = main cfg w)"
  using assms by (simp add: main_def)

theorem main_refuses_existing_output_witness:
  "main \<lparr>source_dir = [''work'', ''proj''], output_file = [''work'', ''dump.md''],
          exclude_dirs = {''bin''}, exclude_patterns = [], force = False\<rparr>
        \<lparr>source_is_dir = True, output_content = Some ''old text'', gitignore_at = (\<lambda>d. Missing),
          proc = \<lparr>cwd = [''work''], is_dir = (\<lambda>p. True)\<rparr>,
          tree = [FileEntry \<lparr>fname = ''a.py'', rb_read = Some [], utf8_read = Some []\<rparr>]\<rparr>
     = (OutputExists, Some ''old text'')"
  using main_refuses_existing_output [of
      "\<lparr>source_is_dir = True, output_content = Some ''old text'', gitignore_at = (\<lambda>d. Missing),
          proc = \<lparr>cwd = [''work''], is_dir = (\<lambda>p. True)\<rparr>,
          tree = [FileEntry \<lparr>fname = ''a.py'', rb_read = Some [], utf8_read = Some []\<rparr>]\<rparr>"
      "''old text''"
      "\<lparr>source_dir = [''work'', ''proj''], output_file = [''work'', ''dump.md''],
          exclude_dirs = {''bin''}, exclude_patterns = [], force = False\<rparr>"]
  by simp

lemma null_byte_is_binary:
  "is_binary_file \<lparr>fname = ''a.txt'', rb_read = Some [65, 0], utf8_read = Some ''A''\<rparr> = Inr True"
  using txt_not_denied by (simp add: is_binary_file_def Let_def)

text \<open>
  C3, as amended. The run has no counter for binary content: a file other than the
  output file that the detector classifies as binary (by extension, by content or
  because it cannot be read) adds one to \<open>skipped_read_error\<close> and changes nothing else,
  and so does a file that passes every filter and whose text cannot be read.
\<close>

theorem binary_skip_counts_as_read_error:
  assumes "source_dir cfg @ rel @ [fname f] \<noteq> output_file cfg"
    and "is_binary_file f = Inr True
       \<or> (is_binary_file f = Inr False
          \<and> \<not> list_ex (\<lambda>part. part \<in> exclude_dirs cfg) (rel @ [fname f])
          \<and> \<not> file_matches_exclude_pattern (replace_backslash (as_posix (rel @ [fname f])))
                (exclude_patterns cfg)
          \<and> \<not> matches_gitignore env (replace_backslash (as_posix (rel @ [fname f]))) gmap
          \<and> utf8_read f = None)"
  shows "process_file cfg env gmap rel f st
       = Inr (st\<lparr>skipped_read_error := skipped_read_error st + 1\<rparr>)"
  using assms by (auto simp: process_file_def Let_def)

theorem binary_skip_counts_as_read_error_witness:
  "process_file \<lparr>source_dir = [''work'', ''proj''], output_file = [''work'', ''dump.md''],
          exclude_dirs = {''bin''}, exclude_patterns = [], force = False\<rparr>
      \<lparr>cwd = [''work''], is_dir = (\<lambda>p. True)\<rparr> [] []
      \<lparr>fname = ''a.txt'', rb_read = Some [65, 0], utf8_read = Some ''A''\<rparr>
      \<lparr>processed_count = 0, skipped_excluded_dir = 0, skipped_gitignore = 0,
       skipped_read_error = 0, skipped_output_file = 0, skipped_pattern_exclude = 0,
       md_file = [], visited = []\<rparr>
   = Inr \<lparr>processed_count = 0, skipped_excluded_dir = 0, skipped_gitignore = 0,
       skipped_read_error = 1, skipped_output_file = 0, skipped_pattern_exclude = 0,
       md_file = [], visited = []\<rparr>"
  using binary_skip_counts_as_read_error [of
     "\<lparr>source_dir = [''work'', ''proj''], output_file = [''work'', ''dump.md''],
          exclude_dirs = {''bin''}, exclude_patterns = [], force = False\<rparr>"
     "[]" "\<lparr>fname = ''a.txt'', rb_read = Some [65, 0], utf8_read = Some ''A''\<rparr>"
     "\<lparr>cwd = [''work''], is_dir = (\<lambda>p. True)\<rparr>" "[]"
     "\<lparr>processed_count = 0, skipped_excluded_dir = 0, skipped_gitignore = 0,
       skipped_read_error = 0, skipped_output_file = 0, skipped_pattern_exclude = 0,
       md_file = [], visited = []\<rparr>"]
    null_byte_is_binary
  by simp

text \<open>
  C3 as the specification words it fails: a run over a tree whose only file is readable
  in both modes and holds a null byte ends with the read-error counter at one.
\<close>

theorem readable_binary_file_counted_as_read_error:
  "fst (main \<lparr>source_dir = [''work'', ''proj''], output_file = [''work'', ''dump.md''],
          exclude_dirs = {''bin''}, exclude_patterns = [], force = False\<rparr>
        \<lparr>source_is_dir = True, output_content = None, gitignore_at = (\<lambda>d. Missing),
          proc = \<lparr>cwd = [''work''], is_dir = (\<lambda>p. True)\<rparr>,
          tree = [FileEntry \<lparr>fname = ''a.txt'', rb_read = Some [65, 0], utf8_read = Some ''A''\<rparr>]\<rparr>)
     = Finished \<lparr>processed_count = 0, skipped_excluded_dir = 0, skipped_gitignore = 0,
         skipped_read_error = 1, skipped_output_file = 0, skipped_pattern_exclude = 0,
         md_file = md_file (initial_state
            \<lparr>source_dir = [''work'', ''proj''], output_file = [''work'', ''dump.md''],
             exclude_dirs = {''bin''}, exclude_patterns = [], force = False\<rparr>
            \<lparr>cwd = [''work''], is_dir = (\<lambda>p. True)\<rparr>),
         visited = [[]]\<rparr>"
  by code_simp

text \<open>
  The directory loop has the fallback for the recursive-wildcard anchor: a pattern that
  starts with \<open>**/\<close> after the normalisation matches a name without a slash when the
  rest of the pattern matches it.
\<close>

lemma dir_pattern_match_fallback:
  assumes "startswith (pattern_to_test_against_dir pat) ''**/''"
    and "CHR ''/'' \<notin> set d"
    and "fnmatch d (drop 3 (pattern_to_test_against_dir pat))"
  shows "dir_pattern_match d pat"
  using assms by (simp add: dir_pattern_match_def Let_def)

text \<open>
  C5 at a failing input: the pattern \<open>**/notes.txt\<close> prunes a directory \<open>notes.txt\<close> at the
  root through the fallback of the directory loop, but the file loop, which has no such
  fallback, does not match a file \<open>notes.txt\<close> at the root (it does match one below a
  directory).
\<close>

theorem root_file_not_matched_by_recursive_anchor:
  "matched_by_exclude_pattern ''notes.txt'' [''**/notes.txt''] = True
   \<and> file_matches_exclude_pattern ''notes.txt'' [''**/notes.txt''] = False
   \<and> file_matches_exclude_pattern ''sub/notes.txt'' [''**/notes.txt''] = True"
  by code_simp

text \<open>
  What the matcher does by its code: a scope whose directory is the working directory
  is applied to the candidate path as it stands; a scope that is not at or below the
  working directory is never applied.
\<close>

lemma matches_gitignore_scope_is_cwd:
  "matches_gitignore env rpp ((cwd env, patterns) # rest)
     = (any_pattern env (as_posix (Path rpp)) patterns \<or> matches_gitignore env rpp rest)"
  by (simp add: relative_to_def)

lemma matches_gitignore_scope_outside_cwd:
  "take (length (cwd env)) gitignore_dir \<noteq> cwd env
    \<Longrightarrow> matches_gitignore env rpp ((gitignore_dir, patterns) # rest) = matches_gitignore env rpp rest"
  by (simp add: relative_to_def)

text \<open>
  C1 at a failing input: the source directory \<open>/work/proj\<close> holds an ignore file with the
  pattern \<open>*.log\<close>. The file \<open>b.log\<close> of that directory is ignored when the process runs
  in \<open>/work/proj\<close> and is not ignored when it runs in \<open>/work\<close>. The same pattern in
  an ignore file of the parent directory \<open>/work\<close> is not applied even when the process
  runs in \<open>/work/proj\<close>.
\<close>

theorem matches_gitignore_depends_on_cwd:
  "get_gitignore_patterns
      (\<lambda>d. if d = [''work'', ''proj''] then Readable (''*.log'' @ [CHR 0x0A]) else Missing)
      [''work'', ''proj''] = [([''work'', ''proj''], [''*.log''])]
   \<and> matches_gitignore \<lparr>cwd = [''work'', ''proj''], is_dir = (\<lambda>p. False)\<rparr> ''b.log''
        [([''work'', ''proj''], [''*.log''])] = True
   \<and> matches_gitignore \<lparr>cwd = [''work''], is_dir = (\<lambda>p. False)\<rparr> ''b.log''
        [([''work'', ''proj''], [''*.log''])] = False
   \<and> matches_gitignore \<lparr>cwd = [''work'', ''proj''], is_dir = (\<lambda>p. False)\<rparr> ''b.log''
        [([''work''], [''*.log''])] = False"
  by code_simp

section \<open>Properties of the ignore-file parsers\<close>

lemma rstrip_keeps_head: "\<not> isspace c \<Longrightarrow> rstrip (c # r) = c # rstrip r"
  by (simp add: rstrip_def dropWhile_append)

lemma blank_dropWhile: "blank_line l \<Longrightarrow> dropWhile isspace l = []"
  by (simp add: blank_line_def list_all_iff)

lemma str_strip_cases:
  "(blank_line l \<and> str_strip l = [])
   \<or> (\<exists>c r. dropWhile isspace l = c # r \<and> \<not> isspace c \<and> \<not> blank_line l
          \<and> str_strip l = c # rstrip r)"
proof (cases "dropWhile isspace l")
  case Nil
  have "str_strip l = []"
    unfolding str_strip_def lstrip_def Nil by (simp add: rstrip_def)
  moreover have "blank_line l"
    using Nil by (simp add: blank_line_def list_all_iff)
  ultimately show ?thesis by blast
next
  case (Cons c r)
  then have nd: "\<not> isspace c" using hd_dropWhile [of isspace l] by auto
  have "str_strip l = c # rstrip r"
    unfolding str_strip_def lstrip_def Cons using nd by (rule rstrip_keeps_head)
  moreover have "\<not> blank_line l"
    using Cons blank_dropWhile [of l] by auto
  ultimately show ?thesis using Cons nd by blast
qed

lemma str_strip_Nil_iff: "str_strip l = [] \<longleftrightarrow> blank_line l"
  using str_strip_cases [of l] by auto

lemma str_strip_comment: "startswith (str_strip l) ''#'' \<longleftrightarrow> comment_line l"
  using str_strip_cases [of l] by (auto simp: comment_line_def blank_dropWhile)

lemma parse_lines_filter:
  "parse_lines acc ls
     = acc @ map str_strip (filter (\<lambda>l. \<not> blank_line l \<and> \<not> comment_line l) ls)"
  by (induction ls arbitrary: acc) (simp_all add: Let_def str_strip_Nil_iff str_strip_comment)

lemma str_strip_head_not_space: "str_strip l = c # r \<Longrightarrow> \<not> isspace c"
  using str_strip_cases [of l] by auto

lemma stripped_pattern_ok:
  assumes "\<not> blank_line l" "\<not> comment_line l"
  shows "str_strip l \<noteq> [] \<and> \<not> blank_line (str_strip l) \<and> \<not> comment_line (str_strip l)"
proof -
  from assms(1) obtain c r where cr: "str_strip l = c # r"
    using str_strip_Nil_iff [of l] by (cases "str_strip l") auto
  then have ns: "\<not> isspace c" by (rule str_strip_head_not_space)
  from assms(2) cr have "c \<noteq> CHR ''#''" using str_strip_comment [of l] by auto
  with cr ns show ?thesis by (simp add: blank_line_def comment_line_def)
qed

text \<open>
  C8, as amended. The dump tool returns, in file order, the stripped text of every line
  that is neither blank nor a comment line, so its rule set holds no blank and no
  comment line. The tree tool returns, in file order and unchanged, every line that is
  not empty and not a comment line, so its rule set holds no empty and no comment line;
  a line of whitespace only is kept.
\<close>

theorem ignore_file_parsing:
  "parse_gitignore (Readable content)
      = map str_strip (filter (\<lambda>l. \<not> blank_line l \<and> \<not> comment_line l) (file_lines [] content))
   \<and> list_all (\<lambda>p. p \<noteq> [] \<and> \<not> blank_line p \<and> \<not> comment_line p) (parse_gitignore (Readable content))
   \<and> load_gitignore_patterns (Readable content)
      = Inr (filter (\<lambda>l. l \<noteq> [] \<and> \<not> comment_line l) (splitlines [] content))
   \<and> list_all (\<lambda>p. p \<noteq> [] \<and> \<not> comment_line p) (projr (load_gitignore_patterns (Readable content)))"
  by (auto simp: parse_lines_filter str_strip_comment list_all_iff dest: stripped_pattern_ok)

text \<open>
  C8 as the specification words it fails: for an ignore file with the lines \<open>build\<close> and
  two blanks, the rule set of the tree tool holds the blank line, which the dump tool
  drops.
\<close>

theorem whitespace_line_counterexample:
  "load_gitignore_patterns (Readable (''build'' @ [CHR 0x0A] @ ''  '' @ [CHR 0x0A])) = Inr [''build'', ''  '']
   \<and> blank_line ''  ''
   \<and> parse_gitignore (Readable (''build'' @ [CHR 0x0A] @ ''  '' @ [CHR 0x0A])) = [''build'']"
  by code_simp

section \<open>Properties of the tree printer\<close>

declare build_tree.simps [simp del]

lemma length_pointers: "length (pointers n) = (if n = 0 then 1 else n)"
  by (simp add: pointers_def)

lemma snd_zip_pointers: "map snd (zip (pointers (length xs)) xs) = xs"
  by (simp add: map_snd_zip_take length_pointers)

lemma filter_concat_singletons:
  "(\<And>y. filter P (f y) = [g y]) \<Longrightarrow> filter P (concat (map f ys)) = map g ys"
  by (induction ys) simp_all

lemma build_tree_deeper:
  "l \<in> set (build_tree mf rel items prefix) \<Longrightarrow> length prefix < length (fst l)"
proof (induction mf rel items prefix arbitrary: l rule: build_tree.induct)
  case (1 mf rel items prefix)
  define L where "L = filtered_items mf rel items"
  from "1.prems" obtain pointer x where px: "(pointer, x) \<in> set (zip (pointers (length L)) L)"
    and l: "l = item_line prefix pointer x \<or>
        l \<in> set (case x of
             Directory n sub \<Rightarrow>
               build_tree mf (rel @ [n]) sub (prefix @ [if pointer = Tee then Bar else Blank])
           | LockedDirectory n \<Rightarrow>
               [((prefix @ [if pointer = Tee then Bar else Blank]) @ [Corner],
                 ''[ACCESS DENIED] '' @ n @ ''/'')]
           | _ \<Rightarrow> [])"
    by (subst (asm) build_tree.simps) (auto simp: Let_def L_def)
  from l show ?case
  proof
    assume "l = item_line prefix pointer x"
    then show ?thesis by (simp add: item_line_def)
  next
    assume rest: "l \<in> set (case x of
             Directory n sub \<Rightarrow>
               build_tree mf (rel @ [n]) sub (prefix @ [if pointer = Tee then Bar else Blank])
           | LockedDirectory n \<Rightarrow>
               [((prefix @ [if pointer = Tee then Bar else Blank]) @ [Corner],
                 ''[ACCESS DENIED] '' @ n @ ''/'')]
           | _ \<Rightarrow> [])"
    show ?thesis
    proof (cases x)
      case (Directory n sub)
      with rest have "l \<in> set (build_tree mf (rel @ [n]) sub (prefix @ [if pointer = Tee then Bar else Blank]))"
        by simp
      from "1.IH" [OF L_def px [unfolded L_def [symmetric]] refl Directory this]
      show ?thesis by simp
    next
      case (LockedDirectory n)
      with rest show ?thesis by auto
    qed (use rest in auto)
  qed
qed

lemma top_filter_step:
  "filter (\<lambda>l. length (fst l) = Suc (length prefix))
      (item_line prefix pointer x #
          (case x of
             Directory n sub \<Rightarrow>
               build_tree mf (rel @ [n]) sub (prefix @ [e])
           | LockedDirectory n \<Rightarrow> [((prefix @ [e]) @ [Corner], ''[ACCESS DENIED] '' @ n @ ''/'')]
           | _ \<Rightarrow> []))
   = [item_line prefix pointer x]"
proof -
  have "filter (\<lambda>l. length (fst l) = Suc (length prefix)) (build_tree mf r sub (prefix @ [e])) = []" for r sub
    by (auto simp: filter_empty_conv dest: build_tree_deeper)
  then show ?thesis by (cases x) (simp_all add: item_line_def)
qed

lemma build_tree_top_lines:
  "filter (\<lambda>l. length (fst l) = Suc (length prefix)) (build_tree mf rel items prefix)
     = map (\<lambda>(pointer, x). item_line prefix pointer x)
         (zip (pointers (length (filtered_items mf rel items))) (filtered_items mf rel items))"
proof -
  have step: "filter (\<lambda>l. length (fst l) = Suc (length prefix))
      ((\<lambda>(pointer, x). item_line prefix pointer x #
          (case x of
             Directory n sub \<Rightarrow>
               build_tree mf (rel @ [n]) sub (prefix @ [if pointer = Tee then Bar else Blank])
           | LockedDirectory n \<Rightarrow>
               [((prefix @ [if pointer = Tee then Bar else Blank]) @ [Corner],
                 ''[ACCESS DENIED] '' @ n @ ''/'')]
           | _ \<Rightarrow> [])) y)
    = [(\<lambda>(pointer, x). item_line prefix pointer x) y]" for y
    by (cases y) (simp only: prod.case top_filter_step)
  show ?thesis
    by (subst build_tree.simps) (simp only: Let_def filter_concat_singletons [OF step])
qed

lemma filtered_items_sorted: "sorted (map sort_key_of (filtered_items mf rel items))"
  unfolding filtered_items_def by (rule sorted_filter) simp

text \<open>
  C7, as amended. The lines that \<open>build_tree\<close> prints for the entries of one directory
  (those one connector deeper than the prefix) are the labels of its sorted and filtered
  entries, in that order. In that order no regular file stands before an entry that is
  not a regular file (a directory, or an entry that is neither), so no regular file
  stands before a directory; and two entries that are both regular files, or both not,
  stand in the order of their lower-cased names.
\<close>

theorem build_tree_level_order:
  assumes "i < j" and "j < length (filtered_items mf rel items)"
  shows "map snd (filter (\<lambda>l. length (fst l) = Suc (length prefix)) (build_tree mf rel items prefix))
       = map (\<lambda>x. item_name x @ (if item_is_dir x then ''/'' else [])) (filtered_items mf rel items)
    \<and> \<not> (item_is_file (filtered_items mf rel items ! i) \<and> \<not> item_is_file (filtered_items mf rel items ! j))
    \<and> \<not> (item_is_file (filtered_items mf rel items ! i) \<and> item_is_dir (filtered_items mf rel items ! j))
    \<and> (item_is_file (filtered_items mf rel items ! i) = item_is_file (filtered_items mf rel items ! j)
        \<longrightarrow> str_lower (item_name (filtered_items mf rel items ! i))
            \<le> str_lower (item_name (filtered_items mf rel items ! j)))"
proof -
  define L where "L = filtered_items mf rel items"
  have "map snd (filter (\<lambda>l. length (fst l) = Suc (length prefix)) (build_tree mf rel items prefix))
      = map (\<lambda>px. snd (item_line prefix (fst px) (snd px))) (zip (pointers (length L)) L)"
    by (simp add: build_tree_top_lines L_def case_prod_unfold comp_def)
  also have "\<dots> = map (\<lambda>x. item_name x @ (if item_is_dir x then ''/'' else [])) (map snd (zip (pointers (length L)) L))"
    by (simp add: item_line_def comp_def)
  finally have top: "map snd (filter (\<lambda>l. length (fst l) = Suc (length prefix)) (build_tree mf rel items prefix))
      = map (\<lambda>x. item_name x @ (if item_is_dir x then ''/'' else [])) L"
    by (simp only: snd_zip_pointers)
  have "sorted (map sort_key_of L)" unfolding L_def by (rule filtered_items_sorted)
  then have "sort_key_of (L ! i) \<le> sort_key_of (L ! j)"
    using assms by (simp add: sorted_iff_nth_mono L_def)
  then have ord: "(item_is_file (L ! i) \<longrightarrow> item_is_file (L ! j))
     \<and> (item_is_file (L ! i) = item_is_file (L ! j) \<longrightarrow> str_lower (item_name (L ! i)) \<le> str_lower (item_name (L ! j)))"
    by (auto simp: sort_key_of_def)
  have "\<not> (item_is_file x \<and> item_is_dir x)" for x by (cases x) simp_all
  with ord top show ?thesis unfolding L_def by blast
qed

lemma mixed_case_items:
  "filtered_items (\<lambda>p. False) []
      [Directory ''Z'' [], RegularFile ''m.txt'', OtherItem ''Link'', Directory ''a'' [], RegularFile ''B.txt'']
     = [Directory ''a'' [], OtherItem ''Link'', Directory ''Z'' [], RegularFile ''B.txt'', RegularFile ''m.txt'']"
  by code_simp

theorem build_tree_level_order_witness:
  "map snd (filter (\<lambda>l. length (fst l) = Suc (length []))
       (build_tree (\<lambda>p. False) []
          [Directory ''Z'' [], RegularFile ''m.txt'', OtherItem ''Link'', Directory ''a'' [], RegularFile ''B.txt''] []))
     = [''a/'', ''Link'', ''Z/'', ''B.txt'', ''m.txt'']
   \<and> str_lower ''Z'' = ''z'' \<and> ''Z'' < ''a''"
  using build_tree_level_order [of 0 1 "\<lambda>p. False" "[]"
      "[Directory ''Z'' [], RegularFile ''m.txt'', OtherItem ''Link'', Directory ''a'' [], RegularFile ''B.txt'']" "[]"]
  by (simp add: mixed_case_items) code_simp

text \<open>
  C7 as the specification words it fails: in a directory with the subdirectory \<open>b\<close>, the
  regular file \<open>0\<close> and two entries \<open>a\<close> and \<open>z\<close> that are neither a regular file nor a
  directory (a dangling link, a pipe), \<open>a\<close> is printed before the directory, and the
  three entries that are not directories are not printed in the order of their names.
\<close>

theorem non_directory_before_directory_counterexample:
  "build_tree (\<lambda>p. False) []
      [Directory ''b'' [], OtherItem ''a'', RegularFile ''0'', OtherItem ''z''] []
     = [([Tee], ''a''), ([Tee], ''b/''), ([Tee], ''z''), ([Corner], ''0'')]
   \<and> \<not> item_is_dir (OtherItem ''a'') \<and> item_is_dir (Directory ''b'' [])
   \<and> \<not> str_lower ''z'' \<le> str_lower ''0''"
  by code_simp

section \<open>Properties of the walk\<close>

lemma scan_dirs_result:
  "scan_dirs cfg env gmap rel ds (st, rg, rp) =
     (st\<lparr>skipped_gitignore := skipped_gitignore st
            + length (filter (\<lambda>d. \<not> pattern_excluded cfg rel d \<and> git_ignored env gmap rel d) ds),
         skipped_pattern_exclude := skipped_pattern_exclude st
            + length (filter (pattern_excluded cfg rel) ds)\<rparr>,
      rg \<union> {d \<in> set ds. \<not> pattern_excluded cfg rel d \<and> git_ignored env gmap rel d},
      rp \<union> {d \<in> set ds. pattern_excluded cfg rel d})"
proof (induction ds arbitrary: st rg rp)
  case Nil
  then show ?case by simp
next
  case (Cons d ds)
  show ?case
    by (auto simp: Cons.IH Let_def pattern_excluded_def git_ignored_def)
qed

lemma filter_dirs_result:
  "filter_dirs cfg env gmap rel dirs st =
     (filter (\<lambda>d. \<not> std_excluded cfg d \<and> \<not> pattern_excluded cfg rel d
                  \<and> \<not> git_ignored env gmap rel d) dirs,
      st\<lparr>skipped_excluded_dir := skipped_excluded_dir st
            + card (set (filter (std_excluded cfg) dirs)),
         skipped_gitignore := skipped_gitignore st
            + length (filter (\<lambda>d. \<not> std_excluded cfg d \<and> \<not> pattern_excluded cfg rel d
                  \<and> git_ignored env gmap rel d) dirs),
         skipped_pattern_exclude := skipped_pattern_exclude st
            + length (filter (\<lambda>d. \<not> std_excluded cfg d \<and> pattern_excluded cfg rel d) dirs)\<rparr>)"
proof -
  have conj: "filter P (filter Q xs) = filter (\<lambda>x. Q x \<and> P x) xs" for P Q and xs :: "string list"
    by (induction xs) auto
  have d1: "filter (\<lambda>d. d \<notin> set (filter (std_excluded cfg) dirs)) dirs
      = filter (\<lambda>d. \<not> std_excluded cfg d) dirs"
    by (rule filter_cong) auto
  have kept: "filter (\<lambda>d. d \<notin> A \<union> {d \<in> set ds. \<not> P d \<and> Q d} \<and> d \<notin> B \<union> {d \<in> set ds. P d}) ds
      = filter (\<lambda>d. d \<notin> A \<and> d \<notin> B \<and> \<not> P d \<and> \<not> Q d) ds" for A B P Q and ds :: "string list"
    by (rule filter_cong) auto
  show ?thesis
    unfolding filter_dirs_def Let_def d1 scan_dirs_result prod.case kept
    by (simp add: conj)
qed


lemma distinct_filter_card: "distinct xs \<Longrightarrow> card (set (filter P xs)) = length (filter P xs)"
  using distinct_card [of "filter P xs"] by simp

lemma filter_dirs_visited: "visited (snd (filter_dirs cfg env gmap rel dirs st)) = visited st"
  by (simp add: filter_dirs_result)

lemma process_file_visited:
  "process_file cfg env gmap rel f st = Inr st' \<Longrightarrow> visited st' = visited st"
  by (auto simp: process_file_def Let_def split: if_splits sum.splits bool.splits option.splits)

lemma process_files_visited:
  "process_files cfg env gmap rel fs st = Inr st' \<Longrightarrow> visited st' = visited st"
proof (induction fs arbitrary: st)
  case Nil
  then show ?case by simp
next
  case (Cons f fs)
  then show ?case
    by (auto split: sum.splits dest: process_file_visited)
qed

lemma take_shorter:
  assumes "take (Suc (length (r @ [d]))) p = (r @ [d]) @ [da]"
  shows "take (Suc (length r)) p = r @ [d]"
proof -
  have "take (Suc (length r)) p = take (Suc (length r)) (take (Suc (length (r @ [d]))) p)"
    by (simp add: min_def)
  also have "\<dots> = take (Suc (length r)) ((r @ [d]) @ [da])"
    by (simp only: assms)
  also have "\<dots> = r @ [d]" by simp
  finally show ?thesis .
qed

declare walk_dir.simps [simp del]

lemma walk_visits:
  "(walk_dir cfg env gmap rel es st = Inr st' \<longrightarrow>
      (\<forall>p \<in> set (visited st'). p \<in> set (visited st) \<or> p = rel
          \<or> (\<exists>d \<in> set (dir_names es). \<not> pruned cfg env gmap rel d \<and> take (Suc (length rel)) p = rel @ [d])))"
  "(walk_subdirs cfg env gmap rel dirs es st = Inr st' \<longrightarrow>
      (\<forall>p \<in> set (visited st'). p \<in> set (visited st)
          \<or> (\<exists>d \<in> set dirs \<inter> set (dir_names es). take (Suc (length rel)) p = rel @ [d])))"
proof (induction cfg env gmap rel es st and cfg env gmap rel dirs es st arbitrary: st' and st'
    rule: walk_dir_walk_subdirs.induct)
  case (1 cfg env gmap rel entries st)
  show ?case
  proof (intro impI ballI)
    fix p
    assume run: "walk_dir cfg env gmap rel entries st = Inr st'" and p: "p \<in> set (visited st')"
    obtain dirs st1 where fd: "filter_dirs cfg env gmap rel (dir_names entries)
             (st\<lparr>visited := visited st @ [rel]\<rparr>) = (dirs, st1)"
      by (cases "filter_dirs cfg env gmap rel (dir_names entries) (st\<lparr>visited := visited st @ [rel]\<rparr>)")
    from run fd obtain st2 where pf: "process_files cfg env gmap rel (file_entries entries) st1 = Inr st2"
      and ws: "walk_subdirs cfg env gmap rel dirs entries st2 = Inr st'"
      by (auto simp: walk_dir.simps split: sum.splits)
    have v1: "visited st1 = visited st @ [rel]"
      using filter_dirs_visited [of cfg env gmap rel "dir_names entries" "st\<lparr>visited := visited st @ [rel]\<rparr>"] fd
      by simp
    have v2: "visited st2 = visited st @ [rel]"
      using process_files_visited [OF pf] v1 by simp
    have dirs: "set dirs \<subseteq> {d. \<not> pruned cfg env gmap rel d}"
      using fd by (auto simp: filter_dirs_result pruned_def)
    from "1.IH" [OF fd [symmetric] pf] ws p
    have "p \<in> set (visited st2)
          \<or> (\<exists>d \<in> set dirs \<inter> set (dir_names entries). take (Suc (length rel)) p = rel @ [d])"
      by blast
    with v2 dirs show "p \<in> set (visited st) \<or> p = rel
          \<or> (\<exists>d \<in> set (dir_names entries). \<not> pruned cfg env gmap rel d \<and> take (Suc (length rel)) p = rel @ [d])"
      by auto
  qed
next
  case (2 cfg env gmap rel dirs st)
  then show ?case by simp
next
  case (3 cfg env gmap rel dirs f es st)
  then show ?case by simp
next
  case (4 cfg env gmap rel dirs d sub es st)
  show ?case
  proof (cases "d \<in> set dirs")
    case False
    with "4.IH"(3) show ?thesis by auto
  next
    case True
    show ?thesis
    proof (intro impI ballI)
      fix p
      assume run: "walk_subdirs cfg env gmap rel dirs (DirEntry d sub # es) st = Inr st'"
        and p: "p \<in> set (visited st')"
      from run True obtain st1 where wd: "walk_dir cfg env gmap (rel @ [d]) sub st = Inr st1"
        and ws: "walk_subdirs cfg env gmap rel dirs es st1 = Inr st'"
        by (auto split: sum.splits)
      from "4.IH"(2) [OF True wd] ws p
      have "p \<in> set (visited st1)
          \<or> (\<exists>d \<in> set dirs \<inter> set (dir_names es). take (Suc (length rel)) p = rel @ [d])"
        by blast
      moreover have "p \<in> set (visited st) \<or> take (Suc (length rel)) p = rel @ [d]"
        if "p \<in> set (visited st1)"
      proof -
        from "4.IH"(1) [OF True] wd that
        have "p \<in> set (visited st) \<or> p = rel @ [d]
            \<or> (\<exists>da \<in> set (dir_names sub). take (Suc (length (rel @ [d]))) p = (rel @ [d]) @ [da])"
          by blast
        then show ?thesis using take_shorter [of rel d p] by auto
      qed
      ultimately show "p \<in> set (visited st)
          \<or> (\<exists>d' \<in> set dirs \<inter> set (dir_names (DirEntry d sub # es)). take (Suc (length rel)) p = rel @ [d'])"
        using True by auto
    qed
  qed
qed


lemma partition_by_tests:
  "length xs = length (filter (\<lambda>x. \<not> a x \<and> \<not> b x \<and> \<not> c x) xs)
     + (length (filter a xs) + length (filter (\<lambda>x. \<not> a x \<and> b x) xs)
        + length (filter (\<lambda>x. \<not> a x \<and> \<not> b x \<and> c x) xs))"
  by (induction xs) auto

lemma pruned_count:
  "length (filter (pruned cfg env gmap rel) xs)
     = length (filter (std_excluded cfg) xs)
       + length (filter (\<lambda>d. \<not> std_excluded cfg d \<and> pattern_excluded cfg rel d) xs)
       + length (filter (\<lambda>d. \<not> std_excluded cfg d \<and> \<not> pattern_excluded cfg rel d
                           \<and> git_ignored env gmap rel d) xs)"
  by (induction xs) (auto simp: pruned_def)

lemma counters_le_refl: "counters_le st st"
  by (simp add: counters_le_def)

lemma counters_le_trans: "counters_le a b \<Longrightarrow> counters_le b c \<Longrightarrow> counters_le a c"
  by (auto simp: counters_le_def)

lemma process_file_total: "\<exists>st'. process_file cfg env gmap rel f st = Inr st'"
proof -
  obtain b where "is_binary_file f = Inr b"
    using is_binary_file_never_raises [of f] by (cases "is_binary_file f") auto
  then show ?thesis
    by (cases b) (simp_all add: process_file_def Let_def split: option.splits)
qed

lemma process_file_grows:
  "process_file cfg env gmap rel f st = Inr st' \<Longrightarrow> counters_le st st'"
  by (auto simp: process_file_def Let_def counters_le_def
      split: if_splits sum.splits bool.splits option.splits)

lemma process_files_total: "\<exists>st'. process_files cfg env gmap rel fs st = Inr st'"
proof (induction fs arbitrary: st)
  case Nil
  then show ?case by simp
next
  case (Cons f fs)
  obtain st1 where "process_file cfg env gmap rel f st = Inr st1"
    using process_file_total by blast
  with Cons [of st1] show ?case by simp
qed

lemma process_files_grows:
  "process_files cfg env gmap rel fs st = Inr st' \<Longrightarrow> counters_le st st'"
proof (induction fs arbitrary: st)
  case Nil
  then show ?case by (simp add: counters_le_refl)
next
  case (Cons f fs)
  then show ?case
    by (auto split: sum.splits dest: process_file_grows intro: counters_le_trans)
qed

lemma filter_dirs_grows: "counters_le st (snd (filter_dirs cfg env gmap rel dirs st))"
  by (simp add: filter_dirs_result counters_le_def)

lemma walk_total:
  "\<exists>st'. walk_dir cfg env gmap rel es st = Inr st'"
  "\<exists>st'. walk_subdirs cfg env gmap rel dirs es st = Inr st'"
proof (induction cfg env gmap rel es st and cfg env gmap rel dirs es st
    rule: walk_dir_walk_subdirs.induct)
  case (1 cfg env gmap rel entries st)
  obtain dirs st1 where fd: "filter_dirs cfg env gmap rel (dir_names entries)
             (st\<lparr>visited := visited st @ [rel]\<rparr>) = (dirs, st1)"
    by (cases "filter_dirs cfg env gmap rel (dir_names entries) (st\<lparr>visited := visited st @ [rel]\<rparr>)")
  obtain st2 where pf: "process_files cfg env gmap rel (file_entries entries) st1 = Inr st2"
    using process_files_total by blast
  from "1.IH" [OF fd [symmetric] pf] show ?case
    by (simp add: walk_dir.simps fd pf)
next
  case (2 cfg env gmap rel dirs st)
  then show ?case by simp
next
  case (3 cfg env gmap rel dirs f es st)
  then show ?case by simp
next
  case (4 cfg env gmap rel dirs d sub es st)
  show ?case
  proof (cases "d \<in> set dirs")
    case False
    with "4.IH"(3) show ?thesis by simp
  next
    case True
    from "4.IH"(1) [OF True] obtain st1 where wd: "walk_dir cfg env gmap (rel @ [d]) sub st = Inr st1"
      by blast
    from "4.IH"(2) [OF True wd] show ?thesis using True wd by simp
  qed
qed

lemma walk_grows:
  "walk_dir cfg env gmap rel es st = Inr st' \<longrightarrow> counters_le st st' \<and> rel \<in> set (visited st')"
  "walk_subdirs cfg env gmap rel dirs es st = Inr st' \<longrightarrow> counters_le st st'"
proof (induction cfg env gmap rel es st and cfg env gmap rel dirs es st arbitrary: st' and st'
    rule: walk_dir_walk_subdirs.induct)
  case (1 cfg env gmap rel entries st)
  show ?case
  proof
    assume run: "walk_dir cfg env gmap rel entries st = Inr st'"
    obtain dirs st1 where fd: "filter_dirs cfg env gmap rel (dir_names entries)
             (st\<lparr>visited := visited st @ [rel]\<rparr>) = (dirs, st1)"
      by (cases "filter_dirs cfg env gmap rel (dir_names entries) (st\<lparr>visited := visited st @ [rel]\<rparr>)")
    from run fd obtain st2 where pf: "process_files cfg env gmap rel (file_entries entries) st1 = Inr st2"
      and ws: "walk_subdirs cfg env gmap rel dirs entries st2 = Inr st'"
      by (auto simp: walk_dir.simps split: sum.splits)
    have a: "counters_le (st\<lparr>visited := visited st @ [rel]\<rparr>) st1"
      using filter_dirs_grows [of "st\<lparr>visited := visited st @ [rel]\<rparr>" cfg env gmap rel "dir_names entries"] fd
      by simp
    have b: "counters_le st1 st2" using pf by (rule process_files_grows)
    have c: "counters_le st2 st'" using "1.IH" [OF fd [symmetric] pf] ws by blast
    have "counters_le (st\<lparr>visited := visited st @ [rel]\<rparr>) st'"
      using a b c by (blast intro: counters_le_trans)
    then show "counters_le st st' \<and> rel \<in> set (visited st')"
      by (auto simp: counters_le_def)
  qed
next
  case (2 cfg env gmap rel dirs st)
  then show ?case by (simp add: counters_le_refl)
next
  case (3 cfg env gmap rel dirs f es st)
  then show ?case by simp
next
  case (4 cfg env gmap rel dirs d sub es st)
  show ?case
  proof (cases "d \<in> set dirs")
    case False
    with "4.IH"(3) show ?thesis by simp
  next
    case True
    show ?thesis
    proof
      assume run: "walk_subdirs cfg env gmap rel dirs (DirEntry d sub # es) st = Inr st'"
      from run True obtain st1 where wd: "walk_dir cfg env gmap (rel @ [d]) sub st = Inr st1"
        and ws: "walk_subdirs cfg env gmap rel dirs es st1 = Inr st'"
        by (auto split: sum.splits)
      have "counters_le st st1" using "4.IH"(1) [OF True] wd by blast
      moreover have "counters_le st1 st'" using "4.IH"(2) [OF True wd] ws by blast
      ultimately show "counters_le st st'" by (rule counters_le_trans)
    qed
  qed
qed

lemma walk_subdirs_visits_kept:
  "walk_subdirs cfg env gmap rel dirs es st = Inr st' \<Longrightarrow> d \<in> set dirs
    \<Longrightarrow> d \<in> set (dir_names es) \<Longrightarrow> rel @ [d] \<in> set (visited st')"
proof (induction es arbitrary: st)
  case Nil
  then show ?case by simp
next
  case (Cons e es)
  show ?case
  proof (cases e)
    case (FileEntry f)
    with Cons show ?thesis by simp
  next
    case (DirEntry d' sub)
    show ?thesis
    proof (cases "d' \<in> set dirs")
      case False
      with Cons DirEntry show ?thesis by auto
    next
      case True
      with Cons.prems(1) DirEntry obtain st1
        where wd: "walk_dir cfg env gmap (rel @ [d']) sub st = Inr st1"
          and ws: "walk_subdirs cfg env gmap rel dirs es st1 = Inr st'"
        by (auto split: sum.splits)
      show ?thesis
      proof (cases "d' = d")
        case True
        have "rel @ [d'] \<in> set (visited st1)" using walk_grows(1) wd by blast
        moreover have "counters_le st1 st'" using walk_grows(2) ws by blast
        ultimately show ?thesis using True by (auto simp: counters_le_def)
      next
        case False
        with Cons.prems DirEntry have "d \<in> set (dir_names es)" by simp
        from Cons.IH [OF ws Cons.prems(2) this] show ?thesis .
      qed
    qed
  qed
qed

lemma filter_dirs_distinct:
  assumes "distinct dirs"
  shows "filter_dirs cfg env gmap rel dirs st =
     (filter (\<lambda>d. \<not> std_excluded cfg d \<and> \<not> pattern_excluded cfg rel d
                  \<and> \<not> git_ignored env gmap rel d) dirs,
      st\<lparr>skipped_excluded_dir := skipped_excluded_dir st
            + length (filter (std_excluded cfg) dirs),
         skipped_pattern_exclude := skipped_pattern_exclude st
            + length (filter (\<lambda>d. \<not> std_excluded cfg d \<and> pattern_excluded cfg rel d) dirs),
         skipped_gitignore := skipped_gitignore st
            + length (filter (\<lambda>d. \<not> std_excluded cfg d \<and> \<not> pattern_excluded cfg rel d
                  \<and> git_ignored env gmap rel d) dirs)\<rparr>)"
  unfolding filter_dirs_result distinct_filter_card [OF assms] by simp

lemma walk_dir_step:
  assumes "distinct (dir_names es)"
  shows "walk_dir cfg env gmap rel es st =
     (case process_files cfg env gmap rel (file_entries es)
             (st\<lparr>visited := visited st @ [rel],
                 skipped_excluded_dir := skipped_excluded_dir st
                    + length (filter (std_excluded cfg) (dir_names es)),
                 skipped_pattern_exclude := skipped_pattern_exclude st
                    + length (filter (\<lambda>d. \<not> std_excluded cfg d \<and> pattern_excluded cfg rel d)
                                (dir_names es)),
                 skipped_gitignore := skipped_gitignore st
                    + length (filter (\<lambda>d. \<not> std_excluded cfg d \<and> \<not> pattern_excluded cfg rel d
                                          \<and> git_ignored env gmap rel d) (dir_names es))\<rparr>) of
        Inl err \<Rightarrow> Inl err
      | Inr st2 \<Rightarrow>
          walk_subdirs cfg env gmap rel
            (filter (\<lambda>d. \<not> std_excluded cfg d \<and> \<not> pattern_excluded cfg rel d
                         \<and> \<not> git_ignored env gmap rel d) (dir_names es)) es st2)"
  unfolding walk_dir.simps filter_dirs_distinct [OF assms] by simp

text \<open>
  C4. At a directory whose listing has distinct names, the walk first runs the
  directory exclusion: it keeps, in order, the subdirectories that pass all three tests;
  it counts a subdirectory as a standard exclude when its name is excluded or hidden, as
  a pattern exclude when it passes the first test and fails the second, and as an
  ignore-rule skip when it passes the first two and fails the third, so every
  subdirectory is kept or counted once. The walk then handles the files from the state
  with these counts and descends into the kept subdirectories only. It returns; the
  state it returns holds at least these counts and has visited the directory and every
  kept subdirectory, and it has added no path at or below a removed subdirectory to the
  visited directories.
\<close>

theorem directory_exclusion_order:
  assumes "distinct (dir_names es)"
  shows "filter_dirs cfg env gmap rel (dir_names es) st =
     (filter (\<lambda>d. \<not> std_excluded cfg d \<and> \<not> pattern_excluded cfg rel d
                  \<and> \<not> git_ignored env gmap rel d) (dir_names es),
      st\<lparr>skipped_excluded_dir := skipped_excluded_dir st
            + length (filter (std_excluded cfg) (dir_names es)),
         skipped_pattern_exclude := skipped_pattern_exclude st
            + length (filter (\<lambda>d. \<not> std_excluded cfg d \<and> pattern_excluded cfg rel d) (dir_names es)),
         skipped_gitignore := skipped_gitignore st
            + length (filter (\<lambda>d. \<not> std_excluded cfg d \<and> \<not> pattern_excluded cfg rel d
                  \<and> git_ignored env gmap rel d) (dir_names es))\<rparr>)
    \<and> length (dir_names es)
        = length (fst (filter_dirs cfg env gmap rel (dir_names es) st))
          + (length (filter (std_excluded cfg) (dir_names es))
             + length (filter (\<lambda>d. \<not> std_excluded cfg d \<and> pattern_excluded cfg rel d) (dir_names es))
             + length (filter (\<lambda>d. \<not> std_excluded cfg d \<and> \<not> pattern_excluded cfg rel d
                  \<and> git_ignored env gmap rel d) (dir_names es)))
    \<and> walk_dir cfg env gmap rel es st =
         (case process_files cfg env gmap rel (file_entries es)
                 (st\<lparr>visited := visited st @ [rel],
                     skipped_excluded_dir := skipped_excluded_dir st
                        + length (filter (std_excluded cfg) (dir_names es)),
                     skipped_pattern_exclude := skipped_pattern_exclude st
                        + length (filter (\<lambda>d. \<not> std_excluded cfg d \<and> pattern_excluded cfg rel d)
                                    (dir_names es)),
                     skipped_gitignore := skipped_gitignore st
                        + length (filter (\<lambda>d. \<not> std_excluded cfg d \<and> \<not> pattern_excluded cfg rel d
                                              \<and> git_ignored env gmap rel d) (dir_names es))\<rparr>) of
            Inl err \<Rightarrow> Inl err
          | Inr st2 \<Rightarrow>
              walk_subdirs cfg env gmap rel
                (filter (\<lambda>d. \<not> std_excluded cfg d \<and> \<not> pattern_excluded cfg rel d
                             \<and> \<not> git_ignored env gmap rel d) (dir_names es)) es st2)
    \<and> (\<exists>st'. walk_dir cfg env gmap rel es st = Inr st'
          \<and> skipped_excluded_dir st + length (filter (std_excluded cfg) (dir_names es))
              \<le> skipped_excluded_dir st'
          \<and> skipped_pattern_exclude st
              + length (filter (\<lambda>d. \<not> std_excluded cfg d \<and> pattern_excluded cfg rel d) (dir_names es))
              \<le> skipped_pattern_exclude st'
          \<and> skipped_gitignore st
              + length (filter (\<lambda>d. \<not> std_excluded cfg d \<and> \<not> pattern_excluded cfg rel d
                                    \<and> git_ignored env gmap rel d) (dir_names es))
              \<le> skipped_gitignore st'
          \<and> rel \<in> set (visited st')
          \<and> list_all (\<lambda>d. rel @ [d] \<in> set (visited st'))
               (filter (\<lambda>d. \<not> std_excluded cfg d \<and> \<not> pattern_excluded cfg rel d
                            \<and> \<not> git_ignored env gmap rel d) (dir_names es)))
    \<and> (\<forall>d st' p. pruned cfg env gmap rel d \<and> walk_dir cfg env gmap rel es st = Inr st'
          \<and> p \<in> set (visited st') \<and> take (Suc (length rel)) p = rel @ [d]
          \<longrightarrow> p \<in> set (visited st))"
proof -
  define n1 where "n1 = length (filter (std_excluded cfg) (dir_names es))"
  define n2 where "n2 = length (filter (\<lambda>d. \<not> std_excluded cfg d \<and> pattern_excluded cfg rel d)
      (dir_names es))"
  define n3 where "n3 = length (filter (\<lambda>d. \<not> std_excluded cfg d \<and> \<not> pattern_excluded cfg rel d
      \<and> git_ignored env gmap rel d) (dir_names es))"
  define kept where "kept = filter (\<lambda>d. \<not> std_excluded cfg d \<and> \<not> pattern_excluded cfg rel d
      \<and> \<not> git_ignored env gmap rel d) (dir_names es)"
  define st0 where "st0 = st\<lparr>visited := visited st @ [rel],
      skipped_excluded_dir := skipped_excluded_dir st + n1,
      skipped_pattern_exclude := skipped_pattern_exclude st + n2,
      skipped_gitignore := skipped_gitignore st + n3\<rparr>"
  have c1: "filter_dirs cfg env gmap rel (dir_names es) st =
     (kept, st\<lparr>skipped_excluded_dir := skipped_excluded_dir st + n1,
         skipped_pattern_exclude := skipped_pattern_exclude st + n2,
         skipped_gitignore := skipped_gitignore st + n3\<rparr>)"
    unfolding kept_def n1_def n2_def n3_def by (rule filter_dirs_distinct [OF assms])
  have c2: "length (dir_names es)
        = length (fst (filter_dirs cfg env gmap rel (dir_names es) st)) + (n1 + n2 + n3)"
    unfolding filter_dirs_result fst_conv n1_def n2_def n3_def by (rule partition_by_tests)
  have c3: "walk_dir cfg env gmap rel es st =
         (case process_files cfg env gmap rel (file_entries es) st0 of
            Inl err \<Rightarrow> Inl err
          | Inr st2 \<Rightarrow> walk_subdirs cfg env gmap rel kept es st2)"
    unfolding kept_def st0_def n1_def n2_def n3_def by (rule walk_dir_step [OF assms])
  obtain st' where run: "walk_dir cfg env gmap rel es st = Inr st'"
    using walk_total(1) by blast
  with c3 obtain st2 where pf: "process_files cfg env gmap rel (file_entries es) st0 = Inr st2"
    and ws: "walk_subdirs cfg env gmap rel kept es st2 = Inr st'"
    by (auto split: sum.splits)
  have "counters_le st0 st2" using pf by (rule process_files_grows)
  moreover have "counters_le st2 st'" using walk_grows(2) ws by blast
  ultimately have "counters_le st0 st'" by (rule counters_le_trans)
  then have bounds: "skipped_excluded_dir st + n1 \<le> skipped_excluded_dir st'"
    "skipped_pattern_exclude st + n2 \<le> skipped_pattern_exclude st'"
    "skipped_gitignore st + n3 \<le> skipped_gitignore st'"
    by (simp_all add: counters_le_def st0_def)
  have self: "rel \<in> set (visited st')" using walk_grows(1) run by blast
  have "rel @ [d] \<in> set (visited st')" if "d \<in> set kept" for d
  proof -
    from that have "d \<in> set (dir_names es)" by (simp add: kept_def)
    with ws that show ?thesis by (rule walk_subdirs_visits_kept)
  qed
  then have kv: "list_all (\<lambda>d. rel @ [d] \<in> set (visited st')) kept"
    by (simp add: list_all_iff)
  have c4: "\<exists>st'. walk_dir cfg env gmap rel es st = Inr st'
          \<and> skipped_excluded_dir st + n1 \<le> skipped_excluded_dir st'
          \<and> skipped_pattern_exclude st + n2 \<le> skipped_pattern_exclude st'
          \<and> skipped_gitignore st + n3 \<le> skipped_gitignore st'
          \<and> rel \<in> set (visited st')
          \<and> list_all (\<lambda>d. rel @ [d] \<in> set (visited st')) kept"
    using run bounds self kv by blast
  have c5: "\<forall>d st' p. pruned cfg env gmap rel d \<and> walk_dir cfg env gmap rel es st = Inr st'
          \<and> p \<in> set (visited st') \<and> take (Suc (length rel)) p = rel @ [d]
          \<longrightarrow> p \<in> set (visited st)"
  proof (intro allI impI)
    fix d st' p
    assume a: "pruned cfg env gmap rel d \<and> walk_dir cfg env gmap rel es st = Inr st'
          \<and> p \<in> set (visited st') \<and> take (Suc (length rel)) p = rel @ [d]"
    then have "p \<in> set (visited st) \<or> p = rel
          \<or> (\<exists>d' \<in> set (dir_names es). \<not> pruned cfg env gmap rel d' \<and> take (Suc (length rel)) p = rel @ [d'])"
      using walk_visits(1) [of cfg env gmap rel es st st'] by blast
    moreover have "p \<noteq> rel" using a by auto
    ultimately show "p \<in> set (visited st)" using a by auto
  qed
  from c1 c2 c3 c4 c5 show ?thesis
    unfolding kept_def st0_def n1_def n2_def n3_def by (intro conjI)
qed

lemma same_dir_names: "same_outside_pruned cfg env gmap rel es es' \<Longrightarrow> dir_names es = dir_names es'"
  by (induction rule: same_outside_pruned.induct) simp_all

lemma same_file_entries: "same_outside_pruned cfg env gmap rel es es' \<Longrightarrow> file_entries es = file_entries es'"
  by (induction rule: same_outside_pruned.induct) simp_all

lemma walk_dir_cong:
  assumes "dir_names es = dir_names es'" and "file_entries es = file_entries es'"
    and "\<And>dirs st. list_all (\<lambda>d. \<not> pruned cfg env gmap rel d) dirs
          \<Longrightarrow> walk_subdirs cfg env gmap rel dirs es st = walk_subdirs cfg env gmap rel dirs es' st"
  shows "walk_dir cfg env gmap rel es st = walk_dir cfg env gmap rel es' st"
proof -
  obtain dirs st1 where fd: "filter_dirs cfg env gmap rel (dir_names es')
      (st\<lparr>visited := visited st @ [rel]\<rparr>) = (dirs, st1)"
    by (cases "filter_dirs cfg env gmap rel (dir_names es') (st\<lparr>visited := visited st @ [rel]\<rparr>)")
  then have "dirs = filter (\<lambda>d. \<not> std_excluded cfg d \<and> \<not> pattern_excluded cfg rel d
                  \<and> \<not> git_ignored env gmap rel d) (dir_names es')"
    by (simp add: filter_dirs_result)
  then have "list_all (\<lambda>d. \<not> pruned cfg env gmap rel d) dirs"
    by (simp add: list_all_iff pruned_def)
  then have "walk_subdirs cfg env gmap rel dirs es s = walk_subdirs cfg env gmap rel dirs es' s" for s
    by (rule assms(3))
  then show ?thesis
    unfolding walk_dir.simps assms(1,2) fd by (simp split: sum.splits)
qed

lemma walk_subdirs_same:
  "same_outside_pruned cfg env gmap rel es es' \<Longrightarrow> list_all (\<lambda>d. \<not> pruned cfg env gmap rel d) dirs
    \<Longrightarrow> walk_subdirs cfg env gmap rel dirs es st = walk_subdirs cfg env gmap rel dirs es' st"
proof (induction arbitrary: dirs st rule: same_outside_pruned.induct)
  case (same_nil cfg env gmap rel)
  then show ?case by simp
next
  case (same_file cfg env gmap rel es es' f)
  then show ?case by simp
next
  case (same_pruned cfg env gmap rel d es es' sub sub')
  then have "d \<notin> set dirs" by (auto simp: list_all_iff)
  with same_pruned show ?case by simp
next
  case (same_kept cfg env gmap rel d sub sub' es es')
  have "walk_dir cfg env gmap (rel @ [d]) sub s = walk_dir cfg env gmap (rel @ [d]) sub' s" for s
    using same_kept.hyps(1) same_kept.IH(1)
    by (intro walk_dir_cong same_dir_names same_file_entries)
  with same_kept.IH(2) [OF same_kept.prems] show ?case
    by (simp split: sum.splits)
qed

text \<open>
  C6. Two listings that differ only below pruned directories, at any depth, give the
  same run from every state: the same output, the same counters and the same visited
  directories, so nothing below a pruned directory is accepted or counted. At the
  directory itself (for a listing with distinct names) the skip counters grow by one
  for each pruned subdirectory.
\<close>

theorem pruned_subtree_contributes_nothing:
  assumes "same_outside_pruned cfg env gmap rel es es'" and "distinct (dir_names es)"
  shows "walk_dir cfg env gmap rel es st = walk_dir cfg env gmap rel es' st
    \<and> total_skipped (snd (filter_dirs cfg env gmap rel (dir_names es) st))
        = total_skipped st + length (filter (pruned cfg env gmap rel) (dir_names es))"
proof
  show "walk_dir cfg env gmap rel es st = walk_dir cfg env gmap rel es' st"
    using assms(1) by (intro walk_dir_cong same_dir_names same_file_entries walk_subdirs_same)
  show "total_skipped (snd (filter_dirs cfg env gmap rel (dir_names es) st))
        = total_skipped st + length (filter (pruned cfg env gmap rel) (dir_names es))"
    unfolding filter_dirs_result distinct_filter_card [OF assms(2)] pruned_count
    by (simp add: total_skipped_def)
qed

subsection \<open>The properties at the example inputs\<close>

lemma example_tests:
  "std_excluded example_cfg ''.git''"
  "\<not> std_excluded example_cfg ''build''"
  "\<not> std_excluded example_cfg ''logs''"
  "\<not> std_excluded example_cfg ''src''"
  "std_excluded example_cfg ''node_modules''"
  "pattern_excluded example_cfg [] ''build''"
  "\<not> pattern_excluded example_cfg [] ''logs''"
  "\<not> pattern_excluded example_cfg [] ''src''"
  "git_ignored example_env example_gmap [] ''logs''"
  "\<not> git_ignored example_env example_gmap [] ''src''"
  by code_simp+



lemma example_names: "dir_names example_tree = [''.git'', ''build'', ''logs'', ''src'']"
  by (simp add: example_tree_def)

lemma text_file_not_binary:
  "str_lower (path_suffix n) \<notin> set BINARY_EXTENSIONS \<Longrightarrow> is_binary_file (text_file n) = Inr False"
  by (simp add: is_binary_file_def text_file_def Let_def ratio_gt_030_def translate_delete_def
      text_chars_iff)

lemma process_file_accepts:
  assumes "source_dir cfg @ rel @ [fname f] \<noteq> output_file cfg"
    and "is_binary_file f = Inr False"
    and "\<not> list_ex (\<lambda>part. part \<in> exclude_dirs cfg) (rel @ [fname f])"
    and "replace_backslash (as_posix (rel @ [fname f])) = rpp"
    and "\<not> file_matches_exclude_pattern rpp (exclude_patterns cfg)"
    and "\<not> matches_gitignore env rpp gmap"
    and "utf8_read f = Some content"
    and "get_language_hint (fname f) = hint"
  shows "process_file cfg env gmap rel f st =
      Inr (st\<lparr>md_file := md_file st @
             [''## '' @ rpp @ [CHR 0x0A, CHR 0x0A],
              [CHR 0x60, CHR 0x60, CHR 0x60] @ hint @ [CHR 0x0A],
              content,
              [CHR 0x0A, CHR 0x60, CHR 0x60, CHR 0x60, CHR 0x0A, CHR 0x0A]],
           processed_count := processed_count st + 1\<rparr>)"
  using assms by (simp add: process_file_def Let_def)

lemma example_file_facts:
  "str_lower (path_suffix ''a.py'') \<notin> set BINARY_EXTENSIONS"
  "str_lower (path_suffix ''c.py'') \<notin> set BINARY_EXTENSIONS"
  "source_dir example_cfg @ [''a.py''] \<noteq> output_file example_cfg"
  "source_dir example_cfg @ [''src'', ''c.py''] \<noteq> output_file example_cfg"
  "''a.py'' \<notin> exclude_dirs example_cfg"
  "''src'' \<notin> exclude_dirs example_cfg"
  "''c.py'' \<notin> exclude_dirs example_cfg"
  "replace_backslash (as_posix [''a.py'']) = ''a.py''"
  "replace_backslash (as_posix [''src'', ''c.py'']) = ''src/c.py''"
  "\<not> file_matches_exclude_pattern ''a.py'' (exclude_patterns example_cfg)"
  "\<not> file_matches_exclude_pattern ''src/c.py'' (exclude_patterns example_cfg)"
  "\<not> matches_gitignore example_env ''a.py'' example_gmap"
  "\<not> matches_gitignore example_env ''src/c.py'' example_gmap"
  "get_language_hint ''a.py'' = ''python''"
  "get_language_hint ''c.py'' = ''python''"
  by code_simp+

lemma example_process_a:
  "process_file example_cfg example_env example_gmap [] (text_file ''a.py'') st =
      Inr (st\<lparr>md_file := md_file st @
             [''## '' @ ''a.py'' @ [CHR 0x0A, CHR 0x0A],
              [CHR 0x60, CHR 0x60, CHR 0x60] @ ''python'' @ [CHR 0x0A],
              ''a'',
              [CHR 0x0A, CHR 0x60, CHR 0x60, CHR 0x60, CHR 0x0A, CHR 0x0A]],
           processed_count := processed_count st + 1\<rparr>)"
  by (rule process_file_accepts)
     (simp_all add: text_file_def example_file_facts
        text_file_not_binary [unfolded text_file_def])

lemma example_process_c:
  "process_file example_cfg example_env example_gmap [''src''] (text_file ''c.py'') st =
      Inr (st\<lparr>md_file := md_file st @
             [''## '' @ ''src/c.py'' @ [CHR 0x0A, CHR 0x0A],
              [CHR 0x60, CHR 0x60, CHR 0x60] @ ''python'' @ [CHR 0x0A],
              ''a'',
              [CHR 0x0A, CHR 0x60, CHR 0x60, CHR 0x60, CHR 0x0A, CHR 0x0A]],
           processed_count := processed_count st + 1\<rparr>)"
  by (rule process_file_accepts)
     (simp_all add: text_file_def example_file_facts
        text_file_not_binary [unfolded text_file_def])

lemma example_src_walk:
  "walk_dir example_cfg example_env example_gmap [''src'']
      [FileEntry (text_file ''c.py''),
       DirEntry ''node_modules'' [FileEntry (text_file ''pkg.json'')]] st =
     Inr (st\<lparr>visited := visited st @ [[''src'']],
            skipped_excluded_dir := skipped_excluded_dir st + 1,
            md_file := md_file st @
             [''## '' @ ''src/c.py'' @ [CHR 0x0A, CHR 0x0A],
              [CHR 0x60, CHR 0x60, CHR 0x60] @ ''python'' @ [CHR 0x0A],
              ''a'',
              [CHR 0x0A, CHR 0x60, CHR 0x60, CHR 0x60, CHR 0x0A, CHR 0x0A]],
            processed_count := processed_count st + 1\<rparr>)"
  by (subst walk_dir_step) (simp_all add: example_tests example_process_c)

theorem directory_exclusion_order_witness:
  "walk_dir example_cfg example_env example_gmap [] example_tree zero_state
     = Inr \<lparr>processed_count = 2, skipped_excluded_dir = 2, skipped_gitignore = 1,
        skipped_read_error = 0, skipped_output_file = 0, skipped_pattern_exclude = 1,
        md_file =
          [''## a.py'' @ [CHR 0x0A, CHR 0x0A],
           [CHR 0x60, CHR 0x60, CHR 0x60] @ ''python'' @ [CHR 0x0A],
           ''a'',
           [CHR 0x0A, CHR 0x60, CHR 0x60, CHR 0x60, CHR 0x0A, CHR 0x0A],
           ''## src/c.py'' @ [CHR 0x0A, CHR 0x0A],
           [CHR 0x60, CHR 0x60, CHR 0x60] @ ''python'' @ [CHR 0x0A],
           ''a'',
           [CHR 0x0A, CHR 0x60, CHR 0x60, CHR 0x60, CHR 0x0A, CHR 0x0A]],
        visited = [[], [''src'']]\<rparr>"
proof -
  have "distinct (dir_names example_tree)"
    by (simp add: example_names)
  note step = directory_exclusion_order [OF this, of example_cfg example_env example_gmap "[]"
      zero_state, THEN conjunct2, THEN conjunct2, THEN conjunct1]
  have files: "file_entries example_tree = [text_file ''a.py'']"
    by (simp add: example_tree_def)
  have subdirs: "walk_subdirs example_cfg example_env example_gmap [] [''src''] example_tree st
      = walk_dir example_cfg example_env example_gmap [''src'']
          [FileEntry (text_file ''c.py''),
           DirEntry ''node_modules'' [FileEntry (text_file ''pkg.json'')]] st" for st
    by (simp add: example_tree_def split: sum.splits)
  show ?thesis
    unfolding step example_names files
    by (simp add: example_tests example_process_a subdirs example_src_walk zero_state_def)
qed

lemma example_pruned:
  "pruned example_cfg example_env example_gmap [] ''.git''"
  "pruned example_cfg example_env example_gmap [] ''build''"
  "pruned example_cfg example_env example_gmap [] ''logs''"
  "\<not> pruned example_cfg example_env example_gmap [] ''src''"
  "pruned example_cfg example_env example_gmap [''src''] ''node_modules''"
  by (simp_all add: pruned_def example_tests)

lemma example_same:
  "same_outside_pruned example_cfg example_env example_gmap [] example_tree example_tree_emptied"
proof -
  have inner: "same_outside_pruned example_cfg example_env example_gmap ([] @ [''src''])
      [FileEntry (text_file ''c.py''), DirEntry ''node_modules'' [FileEntry (text_file ''pkg.json'')]]
      [FileEntry (text_file ''c.py''), DirEntry ''node_modules'' []]"
    using example_pruned(5) by (auto intro!: same_file same_pruned same_nil)
  show ?thesis
    unfolding example_tree_def example_tree_emptied_def
    by (rule same_file, rule same_pruned [OF example_pruned(1)],
        rule same_pruned [OF example_pruned(2)], rule same_pruned [OF example_pruned(3)],
        rule same_kept [OF inner], rule same_nil)
qed

theorem pruned_subtree_contributes_nothing_witness:
  "walk_dir example_cfg example_env example_gmap [] example_tree zero_state
     = walk_dir example_cfg example_env example_gmap [] example_tree_emptied zero_state
   \<and> total_skipped (snd (filter_dirs example_cfg example_env example_gmap [] (dir_names example_tree) zero_state)) = 3"
proof -
  have "distinct (dir_names example_tree)"
    by (simp add: example_names)
  note both = pruned_subtree_contributes_nothing [OF example_same this, of zero_state]
  have "length (filter (pruned example_cfg example_env example_gmap []) (dir_names example_tree)) = 3"
    unfolding example_names by (simp add: example_pruned)
  then have "total_skipped (snd (filter_dirs example_cfg example_env example_gmap []
          (dir_names example_tree) zero_state)) = 3"
    using both [THEN conjunct2] by (simp add: total_skipped_def zero_state_def)
  with both [THEN conjunct1] show ?thesis by (rule conjI)
qed

end
